theory Spec2Isabelle
  imports Complex_Main
begin

section \<open>Data model\<close>

text \<open>
  The module \<^verbatim>\<open>nhsmass/recal.py\<close> works on pandas tables of IEEE doubles. Numbers are
  modelled as \<^typ>\<open>real\<close>, so every result below is about exact arithmetic. The ppm
  column of the curve that \<open>fit_kernel\<close> returns may hold NaN; its values are of type
  \<^typ>\<open>real option\<close>, with \<open>None\<close> for NaN. An error table holds real numbers: where the
  source would go on computing with a NaN in an error table or a spectrum (the mean of
  an empty selection, a division \<open>0/0\<close>, a ridge curve with a NaN), the model stops
  with the outcome \<open>NaN\<close>. Tables carry the default pandas index \<open>0..n-1\<close>, so that label access
  \<^verbatim>\<open>.loc[i, col]\<close> is positional access into a list. Plotting has no effect on any
  returned value and is left out; the flags \<^verbatim>\<open>draw\<close> and \<^verbatim>\<open>show_map\<close> are kept
  as unused arguments.
\<close>

datatype error =
    ValueError | TypeError | LinAlgError | OSError | NaN
  | InsufficientDataError | InvalidRangeError | AssignmentUnavailableError
  | ReferenceLoadError

text \<open>
  \<open>ValueError\<close>, \<open>TypeError\<close> are the Python exceptions the module itself can trigger;
  \<open>LinAlgError\<close> and \<open>OSError\<close> stand for failures of its collaborators. The last four
  constructors are the error names of the specification's taxonomy: no definition below
  produces them.
\<close>

record peak =
  mass :: real
  intensity :: real
  assign :: bool
  rel_error :: "real option"

text \<open>A row of a spectrum table; \<open>rel_error = None\<close> is the NaN of an unassigned row.\<close>

record spectrum =
  table :: "peak list"
  metadata :: "string \<rightharpoonup> string"

type_synonym curve = "(real \<times> real) list"

text \<open>An error table: rows \<open>(mass, ppm)\<close>.\<close>

datatype ErrorTable = ErrorTable "curve option"

record externals =
  gen_dif_masses :: "real list"
  gaussian_kde :: "(real \<times> real) list \<Rightarrow> error + (real \<Rightarrow> real \<Rightarrow> real)"
  savgol_filter :: "real option list \<Rightarrow> real option list"
  spec_assign :: "real \<Rightarrow> (string \<times> nat \<times> nat) list \<Rightarrow> spectrum \<Rightarrow> error + spectrum"
  spec_calc_mass :: "spectrum \<Rightarrow> error + spectrum"
  spec_calc_error :: "spectrum \<Rightarrow> error + spectrum"
  read_csv :: "string \<Rightarrow> error + spectrum"

text \<open>
  The collaborators that are not part of \<^verbatim>\<open>recal.py\<close>, taken as parameters:
  \<open>gen_dif_masses\<close> is \<^verbatim>\<open>gen_from_brutto(df)['calc_mass']\<close> for the six fixed
  C/H/O building blocks; \<open>gaussian_kde\<close> is SciPy's estimator, which fails or gives a
  density; \<open>savgol_filter\<close> is SciPy's filter at window 31 and order 5, on a column
  that may hold NaN (\<open>None\<close>);
  \<open>spec_assign\<close>, \<open>spec_calc_mass\<close>, \<open>spec_calc_error\<close> and \<open>read_csv\<close> are the
  methods of \<^verbatim>\<open>Spectrum\<close>.
\<close>

section \<open>Library functions of NumPy, pandas and SciPy\<close>

definition linspace :: "real \<Rightarrow> real \<Rightarrow> nat \<Rightarrow> real list" where
  "linspace start stop num =
     map (\<lambda>i. start + real i * ((stop - start) / real (num - 1))) [0..<num]"

function bsearch_left :: "real list \<Rightarrow> real \<Rightarrow> nat \<Rightarrow> nat \<Rightarrow> nat" where
  "bsearch_left a v lo hi =
     (if lo < hi
      then (let mid = lo + (hi - lo) div 2
            in if a ! mid < v then bsearch_left a v (mid + 1) hi
               else bsearch_left a v lo mid)
      else lo)"
  by pat_completeness auto
termination
  by (relation "measure (\<lambda>(a, v, lo, hi). hi - lo)") auto

declare bsearch_left.simps [simp del]

definition searchsorted :: "real list \<Rightarrow> real \<Rightarrow> nat" where
  "searchsorted a v = bsearch_left a v 0 (length a)"

text \<open>\<^verbatim>\<open>np.searchsorted(a, v, side='left')\<close> for one key: bisection on \<open>[0, len(a))\<close>.\<close>

definition np_unique :: "real list \<Rightarrow> real list" where
  "np_unique xs = sort (remdups xs)"

definition sort_desc :: "('a \<Rightarrow> real) \<Rightarrow> 'a list \<Rightarrow> 'a list" where
  "sort_desc key xs = rev (sort_key key (rev xs))"

text \<open>
  \<^verbatim>\<open>sort_values(by=..., ascending=False)\<close>: pandas reverses, sorts ascending and
  reverses again. Its default sort is not stable, so the order among equal keys is not
  fixed by the source; the model takes the stable one.
\<close>

definition quantile :: "real list \<Rightarrow> real \<Rightarrow> real option" where
  "quantile xs q =
     (if xs = [] then None
      else (let s = sort xs;
                pos = q * real (length xs - 1);
                lo = nat \<lfloor>pos\<rfloor>;
                hi = min (lo + 1) (length xs - 1)
            in Some (s ! lo + (pos - real lo) * (s ! hi - s ! lo))))"

text \<open>
  \<^verbatim>\<open>Series.quantile(q)\<close> with linear interpolation, for \<open>0 \<le> q \<le> 1\<close>; \<open>None\<close> is
  the NaN of an empty series.
\<close>

definition rot90 :: "'a list list \<Rightarrow> 'a list list" where
  "rot90 m =
     (let n = (case m of [] \<Rightarrow> 0 | row # _ \<Rightarrow> length row)
      in map (\<lambda>r. map (\<lambda>row. row ! (n - 1 - r)) m) [0..<n])"

definition interp_linear :: "real list \<Rightarrow> real list \<Rightarrow> real \<Rightarrow> real option" where
  "interp_linear xs ys x_new =
     (let k = min (max (searchsorted xs x_new) 1) (length xs - 1);
          lo = k - 1;
          hi = k
      in if xs ! hi = xs ! lo then None
         else Some ((ys ! hi - ys ! lo) / (xs ! hi - xs ! lo) * (x_new - xs ! lo) + ys ! lo))"

definition interp1d :: "curve \<Rightarrow> error + (real \<Rightarrow> real option)" where
  "interp1d tab =
     (if length tab < 2 then Inl ValueError
      else (let s = sort_key fst tab
            in Inr (interp_linear (map fst s) (map snd s))))"

text \<open>
  \<^verbatim>\<open>interp1d(x, y, bounds_error=False, fill_value='extrapolate')\<close>, kind \<open>linear\<close>:
  SciPy sorts the points by \<open>x\<close> (a stable sort), finds the insertion index of the new
  abscissa, clips it to \<open>[1, n-1]\<close> and evaluates the line through the two points at
  \<open>lo = k - 1\<close> and \<open>hi = k\<close>. A segment of width zero is a division by zero there
  (\<open>None\<close>). Fewer than two points raise \<open>ValueError\<close> in SciPy up to 1.9; later
  versions give NaN for them.
\<close>

type_synonym 'a heap = "'a list"

definition alloc :: "'a heap \<Rightarrow> 'a \<Rightarrow> 'a heap \<times> nat" where
  "alloc h v = (h @ [v], length h)"

text \<open>
  Objects live in a heap, a list indexed by address; a new object is appended.
  \<^verbatim>\<open>copy.deepcopy\<close> and \<^verbatim>\<open>Spectrum.copy\<close> allocate a new object holding the same
  value.
\<close>

section \<open>Applying an error table: \<^verbatim>\<open>recallibrate\<close>\<close>

definition correct_bin :: "real \<Rightarrow> real \<Rightarrow> real \<Rightarrow> peak list \<Rightarrow> peak list" where
  "correct_bin lo hi p tab =
     map (\<lambda>r. if lo < mass r \<and> mass r \<le> hi
              then r\<lparr>mass := mass r + mass r * p / 1000000\<rparr> else r) tab"

text \<open>
  One pass of the outer loop: the rows with \<open>a[i] < mass \<le> a[i+1]\<close> are selected on the
  table as it is at that moment, and each gets \<open>mass * ppm[i] / 1000000\<close> added.
\<close>

definition apply_curve :: "curve \<Rightarrow> peak list \<Rightarrow> peak list" where
  "apply_curve err tab =
     (let wide = length err;
          min_mass = Min (set (map fst err));
          max_mass = Max (set (map fst err));
          a = linspace min_mass max_mass (wide + 1)
      in fold (\<lambda>i t. correct_bin (a ! i) (a ! (i + 1)) (snd (err ! i)) t) [0..<wide] tab)"

section \<open>Mass-difference map: \<^verbatim>\<open>md_error_map\<close>\<close>

definition dif_set :: "externals \<Rightarrow> real list" where
  "dif_set ext =
     np_unique (concat (map (\<lambda>i. map (\<lambda>d. d * real i) (gen_dif_masses ext)) [1..<10]))"

definition md_candidates :: "spectrum \<Rightarrow> real list" where
  "md_candidates spec =
     (let data = sort_desc intensity (table spec);
          data = (if 1000 < length data then take 1000 data else data);
          data = sort_key mass data
      in map mass data)"

definition nearest_idx :: "real list \<Rightarrow> real \<Rightarrow> nat" where
  "nearest_idx masses mz =
     (let idx = searchsorted masses mz
      in if 0 < idx \<and> (idx = length masses \<or> \<bar>mz - masses ! (idx - 1)\<bar> < \<bar>mz - masses ! idx\<bar>)
         then idx - 1 else idx)"

definition md_match :: "real list \<Rightarrow> real \<Rightarrow> real \<Rightarrow> real \<Rightarrow> curve" where
  "md_match masses ppm m i =
     (let mz = m + i;
          idx = nearest_idx masses mz
      in if mz \<noteq> 0 \<and> \<bar>masses ! idx - mz\<bar> / mz * 1000000 \<le> ppm
         then [(m, (masses ! idx - mz) / mz * 1000000)] else [])"

text \<open>
  The body of the inner loop. At \<open>mz = 0\<close> the quotient of the source is an IEEE
  infinity or NaN, which is not \<open>\<le> ppm\<close>: nothing is appended.
\<close>

definition md_error_map :: "externals \<Rightarrow> spectrum \<Rightarrow> real \<Rightarrow> bool \<Rightarrow> curve" where
  "md_error_map ext spec ppm show_map =
     (let dif = dif_set ext;
          masses = map mass (table spec)
      in concat (map (\<lambda>m. concat (map (md_match masses ppm m) dif)) (md_candidates spec)))"

section \<open>Density map and ridge: \<^verbatim>\<open>kernel_density_map\<close>, \<^verbatim>\<open>fit_kernel\<close>\<close>

definition kernel_density_map ::
  "externals \<Rightarrow> curve \<Rightarrow> real \<Rightarrow> bool \<Rightarrow> error + real list list" where
  "kernel_density_map ext df_error ppm show_map =
     (if df_error = [] then Inl ValueError
      else (let x = map fst df_error;
                xmin = Min (set x);
                xmax = Max (set x);
                ymin = - ppm;
                ymax = ppm;
                xx = linspace xmin xmax 100;
                yy = linspace ymin ymax 100
            in case gaussian_kde ext df_error of
                 Inl e \<Rightarrow> Inl e
               | Inr kern \<Rightarrow> Inr (rot90 (map (\<lambda>xv. map (\<lambda>yv. kern xv yv) yy) xx))))"

text \<open>\<^verbatim>\<open>min(x)\<close> of an empty array raises \<open>ValueError\<close>.\<close>

definition column :: "real list list \<Rightarrow> nat \<Rightarrow> real list" where
  "column f i = map (\<lambda>row. row ! i) f"

definition ridge_ppm :: "real list \<Rightarrow> real option" where
  "ridge_ppm col =
     (case quantile col (95 / 100) of
        None \<Rightarrow> None
      | Some max_kernel \<Rightarrow>
          (let ppm = map fst (filter (\<lambda>(y, v). max_kernel < v) (zip (linspace 3 (- 3) 100) col))
           in if ppm = [] then None else Some (sum_list ppm / real (length ppm))))"

text \<open>
  One pass of the loop over the columns; \<open>None\<close> is the NaN that \<^verbatim>\<open>np.mean\<close> gives
  for an empty selection.
\<close>

type_synonym nan_curve = "(real \<times> real option) list"

text \<open>A table of rows \<open>(mass, ppm)\<close> whose ppm may be NaN (\<open>None\<close>).\<close>

definition nan_minus :: "real option \<Rightarrow> real option \<Rightarrow> real option" where
  "nan_minus a b =
     (case a of
        None \<Rightarrow> None
      | Some x \<Rightarrow> (case b of None \<Rightarrow> None | Some y \<Rightarrow> Some (x - y)))"

text \<open>IEEE subtraction on values that may be NaN: a NaN operand gives NaN.\<close>

definition ridge_column :: "real list list \<Rightarrow> real option list" where
  "ridge_column f = map (\<lambda>i. ridge_ppm (column f i)) [0..<100]"

text \<open>The loop over the 100 columns of the density map: the column \<open>ppm\<close> of \<open>kde_err\<close>.\<close>

definition fit_kernel ::
  "externals \<Rightarrow> real list list \<Rightarrow> real list \<Rightarrow> real \<Rightarrow> bool \<Rightarrow> error + nan_curve" where
  "fit_kernel ext f ms err_ppm show_map =
     (if length f \<noteq> 100 \<or> (\<exists>row \<in> set f. length row \<noteq> 100) \<or> ms = [] then Inl ValueError
      else (let out = ridge_column f;
                sm = savgol_filter ext out;
                xmin = Min (set ms);
                xmax = Max (set ms)
            in if length sm \<noteq> 100 then Inl ValueError
               else Inr (zip (linspace xmin xmax 100) (map (\<lambda>p. nan_minus p (sm ! 0)) sm))))"

text \<open>
  The density map must have 100 rows (the index given to the data frame has 100 labels)
  and 100 columns (a column of 100 masses is assigned to the table built from them), and
  \<^verbatim>\<open>min(mass)\<close> needs a mass; pandas and Python raise \<open>ValueError\<close> otherwise, as
  pandas does for a smoothed column of another length. A NaN among the ridge values
  raises nothing: the column is smoothed, the first smoothed value is subtracted from
  every value, and the table is returned with whatever NaN this leaves. The helper
  column \<open>i\<close> of the result is left out.
\<close>

definition finite_curve :: "nan_curve \<Rightarrow> curve option" where
  "finite_curve c =
     those (map (\<lambda>(m, p). case p of None \<Rightarrow> None | Some v \<Rightarrow> Some (m, v)) c)"

text \<open>The table as a table of real numbers, when no ppm value of it is NaN.\<close>

section \<open>Operations on error tables: \<^verbatim>\<open>extrapolate\<close>, \<^verbatim>\<open>zeroshift\<close>\<close>

definition extrapolate_table :: "curve \<Rightarrow> (real \<times> real) option \<Rightarrow> error + curve" where
  "extrapolate_table tab ranges =
     (let ranges = (case ranges of
                      None \<Rightarrow> (Min (set (map fst tab)), Max (set (map fst tab)))
                    | Some r \<Rightarrow> r);
          interpolation_range = linspace (fst ranges) (snd ranges) 100
      in case interp1d tab of
           Inl e \<Rightarrow> Inl e
         | Inr linear_interp \<Rightarrow>
             (case those (map linear_interp interpolation_range) of
                None \<Rightarrow> Inl NaN
              | Some linear_results \<Rightarrow> Inr (zip interpolation_range linear_results)))"

definition extrapolate ::
  "ErrorTable heap \<Rightarrow> nat \<Rightarrow> (real \<times> real) option \<Rightarrow> error + (ErrorTable heap \<times> nat)" where
  "extrapolate h self ranges =
     (case h ! self of
        ErrorTable None \<Rightarrow> Inl TypeError
      | ErrorTable (Some tab) \<Rightarrow>
          (case extrapolate_table tab ranges of
             Inl e \<Rightarrow> Inl e
           | Inr err \<Rightarrow> Inr (alloc h (ErrorTable (Some err)))))"

definition drop_unassigned :: "spectrum \<Rightarrow> spectrum" where
  "drop_unassigned spec = spec\<lparr>table := filter assign (table spec)\<rparr>"

text \<open>
  Modelled from the spec: \<^verbatim>\<open>Spectrum.drop_unassigned\<close> is not part of \<^verbatim>\<open>recal.py\<close>;
  the specification describes it as the filtering of unassigned rows.
\<close>

definition mean_rel_error :: "externals \<Rightarrow> spectrum \<Rightarrow> error + real" where
  "mean_rel_error ext spec =
     (case spec_calc_error ext (drop_unassigned spec) of
        Inl e \<Rightarrow> Inl e
      | Inr s \<Rightarrow>
          (let vs = concat (map (\<lambda>r. case rel_error r of None \<Rightarrow> [] | Some e \<Rightarrow> [e]) (table s))
           in if vs = [] then Inl NaN else Inr (sum_list vs / real (length vs))))"

text \<open>
  \<^verbatim>\<open>spec.drop_unassigned().calc_error()['rel_error'].mean()\<close>: pandas takes the mean of
  the values that are not NaN.
\<close>

definition shift_ppm :: "real \<Rightarrow> curve \<Rightarrow> curve" where
  "shift_ppm mean_error tab = map (\<lambda>(m, p). (m, p - mean_error)) tab"

definition zeroshift ::
  "externals \<Rightarrow> ErrorTable heap \<Rightarrow> nat \<Rightarrow> spectrum \<Rightarrow> error + (ErrorTable heap \<times> nat)" where
  "zeroshift ext h self spec =
     (let (h1, err) = alloc h (h ! self)
      in case mean_rel_error ext spec of
           Inl e \<Rightarrow> Inl e
         | Inr mean_error \<Rightarrow>
             (case h1 ! err of
                ErrorTable None \<Rightarrow> Inl TypeError
              | ErrorTable (Some tab) \<Rightarrow>
                  (let h2 = h1[err := ErrorTable (Some (shift_ppm mean_error tab))]
                   in Inr (alloc h2 (h2 ! err)))))"

text \<open>
  \<open>err\<close> is the deep copy of \<open>self\<close>; its table is overwritten, and a new
  \<open>ErrorTable\<close> is made of that table.
\<close>

section \<open>The three strategies\<close>

definition assign_scatter :: "spectrum \<Rightarrow> curve" where
  "assign_scatter spectr =
     concat (map (\<lambda>r. case rel_error r of None \<Rightarrow> [] | Some e \<Rightarrow> [(mass r, - e)])
       (table spectr))"

definition assign_error ::
  "externals \<Rightarrow> spectrum \<Rightarrow> real \<Rightarrow> (string \<times> nat \<times> nat) list \<Rightarrow> bool \<Rightarrow> error + ErrorTable"
where
  "assign_error ext spec ppm brutto_dict show_map =
     (case spec_assign ext ppm brutto_dict spec of
        Inl e \<Rightarrow> Inl e
      | Inr s1 \<Rightarrow>
     (case spec_calc_mass ext s1 of
        Inl e \<Rightarrow> Inl e
      | Inr s2 \<Rightarrow>
     (case spec_calc_error ext s2 of
        Inl e \<Rightarrow> Inl e
      | Inr spectr \<Rightarrow>
     (case kernel_density_map ext (assign_scatter spectr) 3 False of
        Inl e \<Rightarrow> Inl e
      | Inr kdm \<Rightarrow>
     (case fit_kernel ext kdm (map mass (table (drop_unassigned spectr))) 3 show_map of
        Inl e \<Rightarrow> Inl e
      | Inr kde_err \<Rightarrow>
     (case finite_curve kde_err of
        None \<Rightarrow> Inl NaN
      | Some err \<Rightarrow>
          if table spec = [] then Inl NaN
          else (let (h0, a0) = alloc [] (ErrorTable (Some err))
                in case extrapolate h0 a0
                          (Some (Min (set (map mass (table spec))),
                                 Max (set (map mass (table spec))))) of
                     Inl e \<Rightarrow> Inl e
                   | Inr (h1, a1) \<Rightarrow>
                       (case zeroshift ext h1 a1 spectr of
                          Inl e \<Rightarrow> Inl e
                        | Inr (h2, a2) \<Rightarrow> Inr (h2 ! a2)))))))))"

text \<open>
  The error tables made inside \<open>assign_error\<close> are new objects, kept in a heap of their
  own. The minimum of an empty mass column is NaN, and a ridge curve with a NaN would
  be extrapolated and shifted with it: the model stops there with the outcome \<open>NaN\<close>.
\<close>

definition massdiff_error :: "externals \<Rightarrow> spectrum \<Rightarrow> bool \<Rightarrow> error + ErrorTable" where
  "massdiff_error ext spec show_map =
     (let mde = md_error_map ext spec 3 False
      in case kernel_density_map ext mde 3 False of
           Inl e \<Rightarrow> Inl e
         | Inr kdm \<Rightarrow>
             (case fit_kernel ext kdm (map mass (table spec)) 3 show_map of
                Inl e \<Rightarrow> Inl e
              | Inr kde_err \<Rightarrow>
                  (case finite_curve kde_err of
                     None \<Rightarrow> Inl NaN
                   | Some err \<Rightarrow> Inr (ErrorTable (Some err)))))"

text \<open>
  \<open>massdiff_error\<close> and \<open>etalon_error\<close> wrap the curve of \<open>fit_kernel\<close> in an error table
  as it is. An error table of the model holds real numbers, so for a curve with a NaN
  the model stops with the outcome \<open>NaN\<close>, where the source returns the table with
  its NaN.
\<close>

definition etalon_cal :: "real list \<Rightarrow> real \<Rightarrow> real \<Rightarrow> real" where
  "etalon_cal et ppm m =
     (let min_mass = m * (1 - ppm / 1000000);
          max_mass = m * (1 + ppm / 1000000)
      in fold (\<lambda>e cal. if min_mass < e \<and> e < max_mass then e else cal) et 0)"

text \<open>The loop over the etalon masses for one peak; the column \<open>cal\<close> starts at 0.\<close>

definition etalon_scatter :: "spectrum \<Rightarrow> spectrum \<Rightarrow> real \<Rightarrow> real \<Rightarrow> error + curve" where
  "etalon_scatter spec etalon quart ppm =
     (if quart < 0 \<or> 1 < quart then Inl ValueError
      else (let et = map mass (table etalon);
                df = table spec;
                df = (case quantile (map intensity df) quart of
                        None \<Rightarrow> []
                      | Some treshold \<Rightarrow> filter (\<lambda>r. treshold < intensity r) df);
                df = map (\<lambda>r. (mass r, etalon_cal et ppm (mass r))) df;
                df = filter (\<lambda>(m, cal). 0 < cal) df
            in Inr (map (\<lambda>(m, cal). (m, (cal - m) / m * 1000000)) df)))"

text \<open>
  The part of \<open>etalon_error\<close> before the density map. pandas refuses a quantile outside
  \<open>[0, 1]\<close>; the quantile of an empty column is NaN, above which no intensity lies.
\<close>

definition etalon_error ::
  "externals \<Rightarrow> spectrum \<Rightarrow> spectrum \<Rightarrow> real \<Rightarrow> real \<Rightarrow> bool \<Rightarrow> error + ErrorTable" where
  "etalon_error ext spec etalon quart ppm show_map =
     (case etalon_scatter spec etalon quart ppm of
        Inl e \<Rightarrow> Inl e
      | Inr error_table \<Rightarrow>
          (case kernel_density_map ext error_table 3 False of
             Inl e \<Rightarrow> Inl e
           | Inr kdm \<Rightarrow>
               (case fit_kernel ext kdm (map mass (table spec)) 3 show_map of
                  Inl e \<Rightarrow> Inl e
                | Inr kde_err \<Rightarrow>
                    (case finite_curve kde_err of
                       None \<Rightarrow> Inl NaN
                     | Some err \<Rightarrow> Inr (ErrorTable (Some err))))))"

section \<open>The entry point\<close>

definition brutto_default :: "(string \<times> nat \<times> nat) list" where
  "brutto_default = [(''C'', 4, 30), (''H'', 4, 60), (''O'', 0, 20)]"

definition recallibrate ::
  "externals \<Rightarrow> spectrum heap \<Rightarrow> nat \<Rightarrow> ErrorTable option \<Rightarrow> string \<Rightarrow> bool
     \<Rightarrow> error + (spectrum heap \<times> nat)" where
  "recallibrate ext h spec0 error_table how draw =
     (let (h1, spec) = alloc h (h ! spec0)
      in case (case error_table of
                 Some t \<Rightarrow> Inr t
               | None \<Rightarrow>
                   if how = ''assign'' then assign_error ext (h1 ! spec) 3 brutto_default draw
                   else if how = ''mdm'' then massdiff_error ext (h1 ! spec) draw
                   else (case read_csv ext how of
                           Inl e \<Rightarrow> Inl e
                         | Inr etalon \<Rightarrow> etalon_error ext (h1 ! spec) etalon (9 / 10) 3 draw)) of
           Inl e \<Rightarrow> Inl e
         | Inr (ErrorTable None) \<Rightarrow> Inl TypeError
         | Inr (ErrorTable (Some err)) \<Rightarrow>
             (let h2 = h1[spec := (h1 ! spec)\<lparr>table := apply_curve err (table (h1 ! spec))\<rparr>];
                  h3 = h2[spec := (h2 ! spec)
                         \<lparr>metadata := (metadata (h2 ! spec))(''recallibrate'' \<mapsto> how)\<rparr>]
              in Inr (h3, spec)))"

text \<open>
  \<open>spec0\<close> is the address of the spectrum passed in; \<open>spec\<close> is its copy, on which
  everything else works. Modelled from the spec: \<^verbatim>\<open>Spectrum.copy\<close> gives an
  independent value, and \<^verbatim>\<open>metadata.add\<close> stores the entries of a mapping.
\<close>

section \<open>Reading results; the specification's curve; concrete inputs\<close>

definition recal_masses ::
  "externals \<Rightarrow> spectrum heap \<Rightarrow> nat \<Rightarrow> ErrorTable option \<Rightarrow> string \<Rightarrow> bool
     \<Rightarrow> error + real list" where
  "recal_masses ext h spec0 error_table how draw =
     (case recallibrate ext h spec0 error_table how draw of
        Inl e \<Rightarrow> Inl e
      | Inr (h', spec) \<Rightarrow> Inr (map mass (table (h' ! spec))))"

text \<open>The mass column of the spectrum that \<open>recallibrate\<close> returns.\<close>

definition nearest_mass :: "real list \<Rightarrow> real \<Rightarrow> real" where
  "nearest_mass masses mz = masses ! nearest_idx masses mz"

text \<open>The observed mass that the matcher compares with \<open>mz\<close>: \<^verbatim>\<open>masses[idx]\<close>.\<close>

definition ladder_spectrum :: spectrum where
  "ladder_spectrum =
     \<lparr>table = [\<lparr>mass = 100, intensity = 3, assign = True, rel_error = Some 1\<rparr>,
               \<lparr>mass = 114, intensity = 2, assign = False, rel_error = None\<rparr>,
               \<lparr>mass = 128, intensity = 1, assign = True, rel_error = Some 3\<rparr>],
      metadata = Map.empty\<rparr>"

text \<open>
  A spectrum of three peaks 14 apart, sorted by mass, the first and the last assigned
  with relative errors 1 and 3 ppm.
\<close>

definition line_through :: "real \<times> real \<Rightarrow> real \<times> real \<Rightarrow> real \<Rightarrow> real" where
  "line_through p q x = snd p + (snd q - snd p) / (fst q - fst p) * (x - fst p)"

fun pw_linear :: "curve \<Rightarrow> real \<Rightarrow> real" where
  "pw_linear (p # q # r # rest) x =
     (if x \<le> fst q then line_through p q x else pw_linear (q # r # rest) x)"
| "pw_linear [p, q] x = line_through p q x"
| "pw_linear [p] x = 0"
| "pw_linear [] x = 0"

text \<open>
  The specification's reading of \<open>extrapolate\<close>, for a curve sorted by mass: between two
  neighbouring points the chord through them; to the left of the first point the line
  of the first segment and to the right of the last point the line of the last segment.
  It is written from the specification's words, to be compared with \<open>interp1d\<close>.
\<close>

definition demo_ext :: externals where
  "demo_ext =
     \<lparr>gen_dif_masses = [14, 28, 30, 41, 18, 44],
      gaussian_kde =
        (\<lambda>data. if length data < 2 then Inl LinAlgError else Inr (\<lambda>x y. (3 - y) * 33 / 2)),
      savgol_filter = (\<lambda>xs. xs),
      spec_assign = (\<lambda>tol bd s. Inr s),
      spec_calc_mass = Inr,
      spec_calc_error = Inr,
      read_csv = (\<lambda>name. Inl OSError)\<rparr>"

text \<open>
  A concrete choice of the collaborators, used only to run the model on concrete inputs:
  round mass differences, an estimator that refuses fewer than two points and else gives
  a surface that falls linearly in ppm and does not depend on the mass (scaled so that
  on the grid of \<open>kernel_density_map\<close> at 3 ppm it takes the values 0 to 99), a filter
  that changes nothing, an assignment that keeps the flags the rows already carry, and no
  readable file.
\<close>

definition unassigned_peak :: "real \<Rightarrow> real \<Rightarrow> peak" where
  "unassigned_peak m i = \<lparr>mass = m, intensity = i, assign = False, rel_error = None\<rparr>"

definition pair_spectrum :: spectrum where
  "pair_spectrum =
     \<lparr>table = [unassigned_peak 100 1, unassigned_peak 200 10], metadata = Map.empty\<rparr>"

definition etalon_spectrum :: spectrum where
  "etalon_spectrum =
     \<lparr>table = [unassigned_peak (200 + 1 / 10000) 1, unassigned_peak 150 1,
               unassigned_peak (200 + 2 / 10000) 1],
      metadata = Map.empty\<rparr>"



text \<open>
  A spectrum of four peaks 14 apart of which only the two in the middle are assigned:
  the assigned masses span \<open>[114, 128]\<close>, all masses span \<open>[100, 142]\<close>.
\<close>

definition flat_map :: "real list list" where
  "flat_map = replicate 100 (replicate 100 0)"

text \<open>
  A density map of 100 rows and 100 columns that is 0 everywhere, as a kernel estimate
  is in double precision far away from every point of the scatter: no value of a column
  lies above the column's 0.95 quantile.
\<close>

definition scenario_spectrum :: spectrum where
  "scenario_spectrum =
     \<lparr>table = [unassigned_peak 100 10, unassigned_peak (100 + 1 / 100) 5,
               unassigned_peak (200 + 5 / 1000) 8],
      metadata = Map.empty\<rparr>"

definition scenario_curve :: curve where
  "scenario_curve = [(100, 5), (200, - 5)]"

definition edge_spectrum :: spectrum where
  "edge_spectrum =
     \<lparr>table = [unassigned_peak (150 - 1 / 10000) 10], metadata = Map.empty\<rparr>"

text \<open>
  The spectrum and the curve of the specification's end-to-end scenario, and a spectrum
  of one peak at 149.9999, just below the edge 150 between the two bins of that curve.
\<close>

section \<open>Properties\<close>

subsection \<open>Grids and heaps\<close>

lemma length_linspace [simp]: "length (linspace a b n) = n"
  by (simp add: linspace_def)

lemma nth_linspace: "i < n \<Longrightarrow> linspace a b n ! i = a + real i * ((b - a) / real (n - 1))"
  by (simp add: linspace_def)

subsection \<open>Bisection finds the insertion point of a sorted array\<close>

lemma bsearch_left_bounds:
  assumes "sorted a" "lo \<le> hi" "hi \<le> length a"
    and "\<forall>i<lo. a ! i < v" and "\<forall>i. hi \<le> i \<and> i < length a \<longrightarrow> v \<le> a ! i"
  shows "lo \<le> bsearch_left a v lo hi \<and> bsearch_left a v lo hi \<le> hi
       \<and> (\<forall>i<bsearch_left a v lo hi. a ! i < v)
       \<and> (\<forall>i. bsearch_left a v lo hi \<le> i \<and> i < length a \<longrightarrow> v \<le> a ! i)"
  using assms
proof (induction a v lo hi rule: bsearch_left.induct)
  case (1 a v lo hi)
  show ?case
  proof (cases "lo < hi")
    case False
    then have "bsearch_left a v lo hi = lo"
      by (subst bsearch_left.simps) simp
    with "1.prems" False show ?thesis by simp
  next
    case True
    define mid where "mid = lo + (hi - lo) div 2"
    have mid: "lo \<le> mid" "mid < hi" using True by (simp_all add: mid_def)
    show ?thesis
    proof (cases "a ! mid < v")
      case lt: True
      have below: "\<forall>i<mid + 1. a ! i < v"
      proof (intro allI impI)
        fix i assume "i < mid + 1"
        then have "a ! i \<le> a ! mid"
          using "1.prems"(1,3) mid by (simp add: sorted_nth_mono)
        with lt show "a ! i < v" by simp
      qed
      have eq: "bsearch_left a v lo hi = bsearch_left a v (mid + 1) hi"
        using True lt by (simp add: bsearch_left.simps [of a v lo hi] mid_def Let_def)
      have "mid + 1 \<le> bsearch_left a v (mid + 1) hi \<and> bsearch_left a v (mid + 1) hi \<le> hi
          \<and> (\<forall>i<bsearch_left a v (mid + 1) hi. a ! i < v)
          \<and> (\<forall>i. bsearch_left a v (mid + 1) hi \<le> i \<and> i < length a \<longrightarrow> v \<le> a ! i)"
        using "1.IH"(1) [OF True mid_def lt "1.prems"(1) _ "1.prems"(3) below "1.prems"(5)] mid
        by simp
      then show ?thesis using eq mid by simp
    next
      case ge: False
      have above: "\<forall>i. mid \<le> i \<and> i < length a \<longrightarrow> v \<le> a ! i"
      proof (intro allI impI)
        fix i assume "mid \<le> i \<and> i < length a"
        then have "a ! mid \<le> a ! i"
          using "1.prems"(1) by (simp add: sorted_nth_mono)
        with ge show "v \<le> a ! i" by simp
      qed
      have eq: "bsearch_left a v lo hi = bsearch_left a v lo mid"
        using True ge by (simp add: bsearch_left.simps [of a v lo hi] mid_def Let_def)
      have "lo \<le> bsearch_left a v lo mid \<and> bsearch_left a v lo mid \<le> mid
          \<and> (\<forall>i<bsearch_left a v lo mid. a ! i < v)
          \<and> (\<forall>i. bsearch_left a v lo mid \<le> i \<and> i < length a \<longrightarrow> v \<le> a ! i)"
        using "1.IH"(2) [OF True mid_def ge "1.prems"(1) mid(1) _ "1.prems"(4) above]
          "1.prems"(3) mid by simp
      then show ?thesis using eq mid by simp
    qed
  qed
qed

lemma searchsorted_sorted:
  assumes "sorted a"
  shows "searchsorted a v \<le> length a"
    and "\<And>i. i < searchsorted a v \<Longrightarrow> a ! i < v"
    and "\<And>i. searchsorted a v \<le> i \<Longrightarrow> i < length a \<Longrightarrow> v \<le> a ! i"
  using bsearch_left_bounds [OF assms, of 0 "length a" v]
  by (simp_all add: searchsorted_def)

lemma nearest_idx_sorted:
  assumes "sorted a" "a \<noteq> []"
  shows "nearest_idx a mz < length a"
    and "\<And>j. j < length a \<Longrightarrow> \<bar>a ! nearest_idx a mz - mz\<bar> \<le> \<bar>a ! j - mz\<bar>"
    and "\<And>j. a ! nearest_idx a mz < mz \<Longrightarrow> j < length a \<Longrightarrow> mz \<le> a ! j
            \<Longrightarrow> \<bar>a ! nearest_idx a mz - mz\<bar> < \<bar>a ! j - mz\<bar>"
proof -
  define r where "r = searchsorted a mz"
  note ss = searchsorted_sorted [OF assms(1), where v = mz, folded r_def]
  have len: "0 < length a" using assms(2) by simp
  show "nearest_idx a mz < length a"
    using ss(1) len by (auto simp: nearest_idx_def Let_def r_def [symmetric])
  consider (left) "0 < r" "r = length a \<or> \<bar>mz - a ! (r - 1)\<bar> < \<bar>mz - a ! r\<bar>"
    | (right) "\<not> (0 < r \<and> (r = length a \<or> \<bar>mz - a ! (r - 1)\<bar> < \<bar>mz - a ! r\<bar>))"
    by blast
  then have main: "(\<forall>j<length a. \<bar>a ! nearest_idx a mz - mz\<bar> \<le> \<bar>a ! j - mz\<bar>)
     \<and> (a ! nearest_idx a mz < mz \<longrightarrow> (\<forall>j<length a. mz \<le> a ! j
            \<longrightarrow> \<bar>a ! nearest_idx a mz - mz\<bar> < \<bar>a ! j - mz\<bar>))"
  proof cases
    case left
    then have k: "nearest_idx a mz = r - 1"
      by (simp add: nearest_idx_def Let_def r_def [symmetric])
    have lt: "a ! (r - 1) < mz" using ss(2) [of "r - 1"] left(1) by simp
    have "\<bar>a ! (r - 1) - mz\<bar> \<le> \<bar>a ! j - mz\<bar>
          \<and> (mz \<le> a ! j \<longrightarrow> \<bar>a ! (r - 1) - mz\<bar> < \<bar>a ! j - mz\<bar>)" if j: "j < length a" for j
    proof (cases "j < r")
      case True
      then have "a ! j \<le> a ! (r - 1)" using assms(1) ss(1) left(1)
        by (intro sorted_nth_mono) auto
      moreover have "a ! j < mz" using ss(2) [OF True] .
      ultimately show ?thesis using lt by simp
    next
      case False
      then have rj: "r \<le> j" by simp
      then have rlt: "r < length a" using j by simp
      have "a ! r \<le> a ! j" using assms(1) rj j by (intro sorted_nth_mono) auto
      moreover have "mz \<le> a ! r" using ss(3) [of r] rlt by simp
      moreover have "\<bar>mz - a ! (r - 1)\<bar> < \<bar>mz - a ! r\<bar>" using left(2) rlt by simp
      ultimately show ?thesis using lt by simp
    qed
    then show ?thesis unfolding k by blast
  next
    case right
    then have k: "nearest_idx a mz = r"
      by (auto simp add: nearest_idx_def Let_def r_def [symmetric])
    have rlt: "r < length a" using right ss(1) len by (cases "r = length a") auto
    have ge: "mz \<le> a ! r" using ss(3) [of r] rlt by simp
    have "\<bar>a ! r - mz\<bar> \<le> \<bar>a ! j - mz\<bar>" if j: "j < length a" for j
    proof (cases "j < r")
      case True
      then have "a ! j \<le> a ! (r - 1)" using assms(1) rlt
        by (intro sorted_nth_mono) auto
      moreover have "a ! (r - 1) < mz" using ss(2) [of "r - 1"] True by simp
      moreover have "\<not> \<bar>mz - a ! (r - 1)\<bar> < \<bar>mz - a ! r\<bar>" using right True rlt by auto
      ultimately show ?thesis using ge by simp
    next
      case False
      then have "a ! r \<le> a ! j" using assms(1) j by (intro sorted_nth_mono) auto
      then show ?thesis using ge by simp
    qed
    then show ?thesis unfolding k using ge by auto
  qed
  show "\<And>j. j < length a \<Longrightarrow> \<bar>a ! nearest_idx a mz - mz\<bar> \<le> \<bar>a ! j - mz\<bar>"
    using main by blast
  show "\<And>j. a ! nearest_idx a mz < mz \<Longrightarrow> j < length a \<Longrightarrow> mz \<le> a ! j
            \<Longrightarrow> \<bar>a ! nearest_idx a mz - mz\<bar> < \<bar>a ! j - mz\<bar>"
    using main by blast
qed

subsection \<open>\<open>recallibrate\<close> changes masses only, and only in the copy\<close>

lemma length_correct_bin [simp]: "length (correct_bin lo hi p tab) = length tab"
  by (simp add: correct_bin_def)

lemma correct_bin_frame:
  "map (\<lambda>r. r\<lparr>mass := 0\<rparr>) (correct_bin lo hi p tab) = map (\<lambda>r. r\<lparr>mass := 0\<rparr>) tab"
  by (simp add: correct_bin_def)

lemma fold_correct_bin_frame:
  "map (\<lambda>r. r\<lparr>mass := 0\<rparr>) (fold (\<lambda>i t. correct_bin (lo i) (hi i) (p i) t) js tab)
     = map (\<lambda>r. r\<lparr>mass := 0\<rparr>) tab"
  by (induction js arbitrary: tab) (simp_all add: correct_bin_frame)

lemma apply_curve_frame:
  "map (\<lambda>r. r\<lparr>mass := 0\<rparr>) (apply_curve err tab) = map (\<lambda>r. r\<lparr>mass := 0\<rparr>) tab"
  unfolding apply_curve_def Let_def by (rule fold_correct_bin_frame)

lemma recallibrate_Inr:
  assumes "recallibrate ext h spec0 error_table how draw = Inr (h', spec)"
  shows "\<exists>err. h' = h @ [(h ! spec0)\<lparr>table := apply_curve err (table (h ! spec0)),
                         metadata := (metadata (h ! spec0))(''recallibrate'' \<mapsto> how)\<rparr>]
           \<and> spec = length h"
  using assms
  by (auto simp: recallibrate_def alloc_def Let_def nth_append
           split: sum.splits ErrorTable.splits option.splits if_splits)

text \<open>
  Claim C8. \<open>recallibrate\<close> never changes the spectrum it is given. Whenever it returns,
  the result is a new object (its address is the first free one, different from the
  argument's), every object that was in the heap before, the argument among them, is
  as it was, the rows of the result agree with the argument's rows in every column but
  \<open>mass\<close>, and its metadata are the argument's with the entry \<open>recallibrate \<mapsto> how\<close>.
  With an error table at hand the call does return.
\<close>

theorem recallibrate_frame:
  assumes "spec0 < length h"
  shows "(\<forall>h' spec. recallibrate ext h spec0 error_table how draw = Inr (h', spec) \<longrightarrow>
            spec = length h \<and> spec \<noteq> spec0 \<and> take (length h) h' = h \<and> h' ! spec0 = h ! spec0
            \<and> map (\<lambda>r. r\<lparr>mass := 0\<rparr>) (table (h' ! spec))
                = map (\<lambda>r. r\<lparr>mass := 0\<rparr>) (table (h ! spec0))
            \<and> metadata (h' ! spec) = (metadata (h ! spec0))(''recallibrate'' \<mapsto> how))
       \<and> (\<forall>err. error_table = Some (ErrorTable (Some err)) \<longrightarrow>
            (\<exists>h'. recallibrate ext h spec0 error_table how draw = Inr (h', length h)))"
proof (intro conjI allI impI)
  fix h' spec
  assume r: "recallibrate ext h spec0 error_table how draw = Inr (h', spec)"
  from recallibrate_Inr [OF r] obtain err where
    h': "h' = h @ [(h ! spec0)\<lparr>table := apply_curve err (table (h ! spec0)),
                         metadata := (metadata (h ! spec0))(''recallibrate'' \<mapsto> how)\<rparr>]"
    and s: "spec = length h" by blast
  show "spec = length h" by (rule s)
  show "spec \<noteq> spec0" using s assms by simp
  show "take (length h) h' = h" by (simp add: h')
  show "h' ! spec0 = h ! spec0" using assms by (simp add: h' nth_append)
  show "map (\<lambda>r. r\<lparr>mass := 0\<rparr>) (table (h' ! spec))
          = map (\<lambda>r. r\<lparr>mass := 0\<rparr>) (table (h ! spec0))"
    by (simp add: h' s apply_curve_frame)
  show "metadata (h' ! spec) = (metadata (h ! spec0))(''recallibrate'' \<mapsto> how)"
    by (simp add: h' s)
next
  fix err assume "error_table = Some (ErrorTable (Some err))"
  then show "\<exists>h'. recallibrate ext h spec0 error_table how draw = Inr (h', length h)"
    by (simp add: recallibrate_def alloc_def Let_def)
qed

theorem recallibrate_frame_witness:
  "(0::nat) < length [scenario_spectrum]
   \<and> (\<exists>h'. recallibrate demo_ext [scenario_spectrum] 0
              (Some (ErrorTable (Some scenario_curve))) ''mdm'' False = Inr (h', 1)
          \<and> h' ! 0 = scenario_spectrum
          \<and> take 1 h' = [scenario_spectrum]
          \<and> map intensity (table (h' ! 1)) = [10, 5, 8]
          \<and> metadata (h' ! 1) ''recallibrate'' = Some ''mdm'')"
proof -
  let ?et = "Some (ErrorTable (Some scenario_curve))"
  have len: "(0::nat) < length [scenario_spectrum]" by simp
  note fr = recallibrate_frame [OF len, of demo_ext ?et "''mdm''" False]
  from fr obtain h' where
    r: "recallibrate demo_ext [scenario_spectrum] 0 ?et ''mdm'' False = Inr (h', 1)"
    by auto
  from fr r have old: "h' ! 0 = scenario_spectrum" "take 1 h' = [scenario_spectrum]"
    and rows: "map (\<lambda>r. r\<lparr>mass := 0\<rparr>) (table (h' ! 1))
                 = map (\<lambda>r. r\<lparr>mass := 0\<rparr>) (table scenario_spectrum)"
    and meta: "metadata (h' ! 1) = (metadata scenario_spectrum)(''recallibrate'' \<mapsto> ''mdm'')"
    by auto
  have "map intensity (map (\<lambda>r. r\<lparr>mass := 0\<rparr>) (table (h' ! 1))) = [10, 5, 8]"
    unfolding rows by (simp add: scenario_spectrum_def unassigned_peak_def)
  then have int: "map intensity (table (h' ! 1)) = [10, 5, 8]"
    by (simp add: comp_def)
  show ?thesis using len r old int meta by auto
qed

subsection \<open>The end-to-end scenario\<close>

text \<open>
  Claim C3, as the code has it. For the scenario's spectrum and curve the bins are
  \<open>(100, 150]\<close> and \<open>(150, 200]\<close>. The peak at 100 lies on the open left edge and is
  unchanged; 100.01 gains 5 ppm and becomes 100.01050005; 200.005 lies above the
  curve's largest mass 200, so it is in no bin and is unchanged.
\<close>

theorem scenario_masses:
  "recal_masses demo_ext [scenario_spectrum] 0 (Some (ErrorTable (Some scenario_curve)))
     ''assign'' True = Inr [100, 10001050005 / 100000000, 200005 / 1000]"
  by (simp add: recal_masses_def recallibrate_def alloc_def scenario_spectrum_def
        scenario_curve_def unassigned_peak_def apply_curve_def linspace_def correct_bin_def
        upt_conv_Cons)

text \<open>The masses that claim C3 states are not the ones returned.\<close>

theorem scenario_masses_counterexample:
  "recal_masses demo_ext [scenario_spectrum] 0 (Some (ErrorTable (Some scenario_curve)))
     ''assign'' True \<noteq> Inr [100, 1000105 / 10000, 199996 / 1000]"
  by (simp add: recal_masses_def recallibrate_def alloc_def scenario_spectrum_def
        scenario_curve_def unassigned_peak_def apply_curve_def linspace_def correct_bin_def
        upt_conv_Cons)

subsection \<open>A peak just below a bin edge\<close>

text \<open>
  Claim C1 at the peak 149.9999 with the scenario's curve. The first pass of the loop
  adds 5 ppm, which carries the mass over the edge 150; the second pass selects rows on
  the changed table, finds the peak in \<open>(150, 200]\<close> and corrects it again, by -5 ppm.
  The result is not the single correction \<open>m + m * 5 / 1000000 = 150.0006499995\<close> that
  the claim states.
\<close>

theorem edge_peak_corrected_twice:
  "recal_masses demo_ext [edge_spectrum] 0 (Some (ErrorTable (Some scenario_curve)))
     ''assign'' True
   = Inr [(1499999 / 10000 + 1499999 / 10000 * 5 / 1000000)
          + (1499999 / 10000 + 1499999 / 10000 * 5 / 1000000) * (- 5) / 1000000]
   \<and> recal_masses demo_ext [edge_spectrum] 0 (Some (ErrorTable (Some scenario_curve)))
     ''assign'' True
   \<noteq> Inr [1499999 / 10000 + 1499999 / 10000 * 5 / 1000000]"
  by (simp add: recal_masses_def recallibrate_def alloc_def edge_spectrum_def
        scenario_curve_def unassigned_peak_def apply_curve_def linspace_def correct_bin_def
        upt_conv_Cons)

subsection \<open>The mass-difference matcher\<close>

lemma sort_desc_props:
  "set (sort_desc key xs) = set xs" "length (sort_desc key xs) = length xs"
  "i < j \<Longrightarrow> j < length xs \<Longrightarrow> key (sort_desc key xs ! j) \<le> key (sort_desc key xs ! i)"
proof -
  show "set (sort_desc key xs) = set xs" "length (sort_desc key xs) = length xs"
    by (simp_all add: sort_desc_def)
  assume ij: "i < j" "j < length xs"
  define S where "S = sort_key key (rev xs)"
  have len: "length S = length xs" by (simp add: S_def)
  have srt: "sorted (map key S)" by (simp add: S_def)
  have "key (rev S ! j) = map key S ! (length S - Suc j)"
    using ij len by (simp add: rev_nth)
  also have "\<dots> \<le> map key S ! (length S - Suc i)"
    using srt ij len by (intro sorted_nth_mono) auto
  also have "\<dots> = key (rev S ! i)"
    using ij len by (simp add: rev_nth)
  finally show "key (sort_desc key xs ! j) \<le> key (sort_desc key xs ! i)"
    by (simp add: sort_desc_def S_def)
qed

lemma md_candidates_eq:
  "md_candidates spec = map mass (sort_key mass (take 1000 (sort_desc intensity (table spec))))"
  by (simp add: md_candidates_def Let_def)

lemma md_candidates_subset: "set (md_candidates spec) \<subseteq> set (map mass (table spec))"
proof -
  have "set (take 1000 (sort_desc intensity (table spec))) \<subseteq> set (table spec)"
    using set_take_subset [of 1000 "sort_desc intensity (table spec)"]
    by (simp add: sort_desc_props(1))
  then show ?thesis by (auto simp: md_candidates_eq)
qed

lemma length_md_candidates: "length (md_candidates spec) \<le> 1000"
  by (simp add: md_candidates_eq)

lemma sorted_md_candidates: "sorted (md_candidates spec)"
  by (simp add: md_candidates_eq)

lemma set_dif_set:
  "set (dif_set ext) = (\<Union>i\<in>{1..<10}. (\<lambda>d. d * real i) ` set (gen_dif_masses ext))"
  by (auto simp: dif_set_def np_unique_def)

lemma dif_set_sorted_distinct: "sorted (dif_set ext)" "distinct (dif_set ext)"
  by (simp_all add: dif_set_def np_unique_def)

lemma dif_set_nonneg:
  assumes "\<forall>d\<in>set (gen_dif_masses ext). 0 \<le> d" and "d \<in> set (dif_set ext)"
  shows "0 \<le> d"
  using assms by (auto simp: set_dif_set)

lemma md_match_pos:
  assumes "0 < m + d"
  shows "md_match masses ppm m d =
           (if \<bar>nearest_mass masses (m + d) - (m + d)\<bar> / (m + d) * 1000000 \<le> ppm
            then [(m, (nearest_mass masses (m + d) - (m + d)) / (m + d) * 1000000)] else [])"
  using assms by (simp add: md_match_def nearest_mass_def Let_def)

text \<open>
  Claim C2. Let the observed masses be sorted and positive and the mass differences be
  non-negative. Then the matcher goes through the candidates (the masses of the at most
  1000 rows that come first when the table is sorted by falling intensity, taken in
  rising order of mass) and, for each, through the sorted, duplicate-free differences;
  for \<open>mz = m + d\<close> it appends \<open>(m, (near - mz) / mz * 1000000)\<close> exactly when
  \<open>\<bar>near - mz\<bar> / mz * 1000000 \<le> ppm\<close>, and nothing otherwise. Here \<open>near\<close>, the mass
  the bisection arrives at, is an observed mass, no observed mass is closer to \<open>mz\<close>,
  and when it lies to the left of \<open>mz\<close> it is strictly closer than every observed mass
  at or to the right of \<open>mz\<close>.
\<close>

theorem md_error_map_nearest:
  assumes srt: "sorted (map mass (table spec))"
    and pos: "\<forall>r\<in>set (table spec). 0 < mass r"
    and dnn: "\<forall>d\<in>set (gen_dif_masses ext). 0 \<le> d"
  shows "md_error_map ext spec ppm show_map =
           concat (map (\<lambda>m. concat (map (\<lambda>d.
              if \<bar>nearest_mass (map mass (table spec)) (m + d) - (m + d)\<bar> / (m + d) * 1000000
                   \<le> ppm
              then [(m, (nearest_mass (map mass (table spec)) (m + d) - (m + d)) / (m + d)
                         * 1000000)]
              else []) (dif_set ext))) (md_candidates spec))
       \<and> (\<forall>m\<in>set (md_candidates spec). \<forall>d\<in>set (dif_set ext).
             nearest_mass (map mass (table spec)) (m + d) \<in> set (map mass (table spec))
           \<and> (\<forall>x\<in>set (map mass (table spec)).
                 \<bar>nearest_mass (map mass (table spec)) (m + d) - (m + d)\<bar> \<le> \<bar>x - (m + d)\<bar>
               \<and> (nearest_mass (map mass (table spec)) (m + d) < m + d \<and> m + d \<le> x \<longrightarrow>
                    \<bar>nearest_mass (map mass (table spec)) (m + d) - (m + d)\<bar> < \<bar>x - (m + d)\<bar>)))
       \<and> md_candidates spec
            = map mass (sort_key mass (take 1000 (sort_desc intensity (table spec))))
       \<and> length (md_candidates spec) \<le> 1000
       \<and> set (sort_desc intensity (table spec)) = set (table spec)
       \<and> (\<forall>j<length (table spec). \<forall>i<j.
             intensity (sort_desc intensity (table spec) ! j)
               \<le> intensity (sort_desc intensity (table spec) ! i))
       \<and> sorted (dif_set ext) \<and> distinct (dif_set ext)
       \<and> set (dif_set ext) = (\<Union>i\<in>{1..<10}. (\<lambda>d. d * real i) ` set (gen_dif_masses ext))"
proof -
  let ?ms = "map mass (table spec)"
  have mpos: "0 < m + d" if "m \<in> set (md_candidates spec)" "d \<in> set (dif_set ext)" for m d
  proof -
    have "m \<in> set ?ms" using that(1) md_candidates_subset by blast
    then have "0 < m" using pos by auto
    moreover have "0 \<le> d" using dif_set_nonneg [OF dnn that(2)] .
    ultimately show ?thesis by simp
  qed
  have eq: "md_error_map ext spec ppm show_map =
           concat (map (\<lambda>m. concat (map (\<lambda>d.
              if \<bar>nearest_mass ?ms (m + d) - (m + d)\<bar> / (m + d) * 1000000 \<le> ppm
              then [(m, (nearest_mass ?ms (m + d) - (m + d)) / (m + d) * 1000000)]
              else []) (dif_set ext))) (md_candidates spec))"
    unfolding md_error_map_def Let_def
    by (intro arg_cong [where f = concat] map_cong refl) (simp add: md_match_pos mpos)
  have near: "nearest_mass ?ms (m + d) \<in> set ?ms
           \<and> (\<forall>x\<in>set ?ms. \<bar>nearest_mass ?ms (m + d) - (m + d)\<bar> \<le> \<bar>x - (m + d)\<bar>
               \<and> (nearest_mass ?ms (m + d) < m + d \<and> m + d \<le> x \<longrightarrow>
                    \<bar>nearest_mass ?ms (m + d) - (m + d)\<bar> < \<bar>x - (m + d)\<bar>))"
    if m: "m \<in> set (md_candidates spec)" for m d
  proof -
    have "m \<in> set ?ms" using m md_candidates_subset by blast
    then have ne: "?ms \<noteq> []" by auto
    note n = nearest_idx_sorted [OF srt ne, where mz = "m + d"]
    have "nearest_mass ?ms (m + d) \<in> set ?ms"
      unfolding nearest_mass_def using n(1) by (intro nth_mem)
    moreover have "\<bar>nearest_mass ?ms (m + d) - (m + d)\<bar> \<le> \<bar>x - (m + d)\<bar>
               \<and> (nearest_mass ?ms (m + d) < m + d \<and> m + d \<le> x \<longrightarrow>
                    \<bar>nearest_mass ?ms (m + d) - (m + d)\<bar> < \<bar>x - (m + d)\<bar>)"
      if "x \<in> set ?ms" for x
    proof -
      from that obtain j where j: "j < length ?ms" "x = ?ms ! j"
        by (auto simp: in_set_conv_nth)
      show ?thesis unfolding nearest_mass_def j(2) using n(2) [OF j(1)] n(3) [OF _ j(1)]
        by blast
    qed
    ultimately show ?thesis by blast
  qed
  have desc: "\<forall>j<length (table spec). \<forall>i<j.
             intensity (sort_desc intensity (table spec) ! j)
               \<le> intensity (sort_desc intensity (table spec) ! i)"
    using sort_desc_props(3) [of _ _ "table spec" intensity] by blast
  show ?thesis
    using eq near md_candidates_eq [of spec] length_md_candidates [of spec]
      sort_desc_props(1) [of intensity "table spec"] desc
      dif_set_sorted_distinct [of ext] set_dif_set [of ext]
    by blast
qed

theorem md_error_map_nearest_witness:
  "sorted (map mass (table ladder_spectrum))
   \<and> list_all (\<lambda>r. 0 < mass r) (table ladder_spectrum)
   \<and> list_all (\<lambda>d. 0 \<le> d) (gen_dif_masses demo_ext)
   \<and> 100 \<in> set (md_candidates ladder_spectrum)
   \<and> 14 \<in> set (dif_set demo_ext)
   \<and> nearest_mass (map mass (table ladder_spectrum)) (100 + 14) = 114
   \<and> \<bar>nearest_mass (map mass (table ladder_spectrum)) (100 + 14) - (100 + 14)\<bar>
        \<le> \<bar>128 - (100 + 14)\<bar>
   \<and> length (md_candidates ladder_spectrum) \<le> 1000"
proof -
  have srt: "sorted (map mass (table ladder_spectrum))"
    by (simp add: ladder_spectrum_def)
  have pos: "\<forall>r\<in>set (table ladder_spectrum). 0 < mass r"
    by (simp add: ladder_spectrum_def)
  have dnn: "\<forall>d\<in>set (gen_dif_masses demo_ext). 0 \<le> d"
    by (simp add: demo_ext_def)
  note th = md_error_map_nearest [OF srt pos dnn, of 3 False]
  have c: "100 \<in> set (md_candidates ladder_spectrum)"
    by (simp add: md_candidates_def ladder_spectrum_def sort_desc_def)
  have "(14::real) \<in> (\<lambda>d. d * real 1) ` set (gen_dif_masses demo_ext)"
    by (simp add: demo_ext_def)
  then have d: "14 \<in> set (dif_set demo_ext)"
    unfolding set_dif_set by (intro UN_I [of 1]) simp_all
  have x: "128 \<in> set (map mass (table ladder_spectrum))"
    by (simp add: ladder_spectrum_def)
  have le: "\<bar>nearest_mass (map mass (table ladder_spectrum)) (100 + 14) - (100 + 14)\<bar>
        \<le> \<bar>128 - (100 + 14)\<bar>"
    using th c d x by blast
  have len: "length (md_candidates ladder_spectrum) \<le> 1000"
    using th by blast
  have n: "nearest_mass (map mass (table ladder_spectrum)) (100 + 14) = 114"
    by (simp add: nearest_mass_def nearest_idx_def searchsorted_def bsearch_left.simps
          ladder_spectrum_def)
  show ?thesis using srt pos dnn c d n le len by (simp add: list_all_iff)
qed

subsection \<open>Matching against an etalon: the last match wins\<close>

lemma fold_last_match:
  "fold (\<lambda>e cal. if P e then e else cal) et c
     = (if filter P et = [] then c else last (filter P et))"
  by (induction et arbitrary: c) simp_all

lemma etalon_cal_last:
  "etalon_cal et ppm m =
     (if filter (\<lambda>e. m * (1 - ppm / 1000000) < e \<and> e < m * (1 + ppm / 1000000)) et = [] then 0
      else last (filter (\<lambda>e. m * (1 - ppm / 1000000) < e \<and> e < m * (1 + ppm / 1000000)) et))"
  unfolding etalon_cal_def Let_def by (rule fold_last_match)

lemma map_filter_map_concat:
  "map g (filter P (map f xs)) = concat (map (\<lambda>x. if P (f x) then [g (f x)] else []) xs)"
  by (induction xs) simp_all

text \<open>
  Claim C10. For one peak of mass \<open>m\<close> the loop over the etalon masses leaves in \<open>cal\<close>
  the last etalon mass, in the order of the etalon table, that lies strictly inside the
  window \<open>(m * (1 - ppm / 1000000), m * (1 + ppm / 1000000))\<close>, and 0 when there is none.
  The scatter of \<open>etalon_error\<close> has, for every peak above the intensity quantile whose
  \<open>cal\<close> is positive, the one row \<open>(m, (cal - m) / m * 1000000)\<close> computed from that
  last match.
\<close>

theorem etalon_last_match_wins:
  assumes "0 \<le> quart" "quart \<le> 1"
  shows "etalon_cal (map mass (table etalon)) ppm m =
           (if filter (\<lambda>e. m * (1 - ppm / 1000000) < e \<and> e < m * (1 + ppm / 1000000))
                 (map mass (table etalon)) = [] then 0
            else last (filter (\<lambda>e. m * (1 - ppm / 1000000) < e \<and> e < m * (1 + ppm / 1000000))
                 (map mass (table etalon))))
       \<and> etalon_scatter spec etalon quart ppm =
           Inr (concat (map (\<lambda>r.
                  if filter (\<lambda>e. mass r * (1 - ppm / 1000000) < e \<and> e < mass r * (1 + ppm / 1000000))
                       (map mass (table etalon)) \<noteq> []
                   \<and> 0 < last (filter (\<lambda>e. mass r * (1 - ppm / 1000000) < e
                                         \<and> e < mass r * (1 + ppm / 1000000))
                                (map mass (table etalon)))
                  then [(mass r,
                         (last (filter (\<lambda>e. mass r * (1 - ppm / 1000000) < e
                                           \<and> e < mass r * (1 + ppm / 1000000))
                                  (map mass (table etalon))) - mass r) / mass r * 1000000)]
                  else [])
                (case quantile (map intensity (table spec)) quart of
                   None \<Rightarrow> []
                 | Some treshold \<Rightarrow> filter (\<lambda>r. treshold < intensity r) (table spec))))"
proof -
  let ?et = "map mass (table etalon)"
  let ?W = "\<lambda>m e. m * (1 - ppm / 1000000) < e \<and> e < m * (1 + ppm / 1000000)"
  let ?surv = "case quantile (map intensity (table spec)) quart of
                   None \<Rightarrow> []
                 | Some treshold \<Rightarrow> filter (\<lambda>r. treshold < intensity r) (table spec)"
  have "etalon_scatter spec etalon quart ppm =
          Inr (map (\<lambda>(m, cal). (m, (cal - m) / m * 1000000))
                (filter (\<lambda>(m, cal). 0 < cal)
                   (map (\<lambda>r. (mass r, etalon_cal ?et ppm (mass r))) ?surv)))"
    using assms by (simp add: etalon_scatter_def Let_def)
  also have "map (\<lambda>(m, cal). (m, (cal - m) / m * 1000000))
                (filter (\<lambda>(m, cal). 0 < cal)
                   (map (\<lambda>r. (mass r, etalon_cal ?et ppm (mass r))) ?surv))
      = concat (map (\<lambda>r. if 0 < etalon_cal ?et ppm (mass r)
                  then [(mass r, (etalon_cal ?et ppm (mass r) - mass r) / mass r * 1000000)]
                  else []) ?surv)"
    by (simp only: map_filter_map_concat prod.case)
  also have "\<dots> = concat (map (\<lambda>r.
                  if filter (?W (mass r)) ?et \<noteq> [] \<and> 0 < last (filter (?W (mass r)) ?et)
                  then [(mass r, (last (filter (?W (mass r)) ?et) - mass r) / mass r * 1000000)]
                  else []) ?surv)"
    by (intro arg_cong [where f = concat] map_cong refl) (simp add: etalon_cal_last)
  finally show ?thesis using etalon_cal_last [of ?et ppm m] by simp
qed

theorem etalon_last_match_wins_witness:
  "(0::real) \<le> 9 / 10 \<and> (9 / 10 :: real) \<le> 1
   \<and> etalon_cal (map mass (table etalon_spectrum)) 3 200 = 200 + 2 / 10000
   \<and> etalon_scatter pair_spectrum etalon_spectrum (9 / 10) 3 = Inr [(200, 1)]"
proof -
  have q: "(0::real) \<le> 9 / 10" "(9 / 10 :: real) \<le> 1" by simp_all
  show ?thesis
    using q etalon_last_match_wins [OF q, of etalon_spectrum 3 200 pair_spectrum]
    by (simp add: etalon_spectrum_def pair_spectrum_def unassigned_peak_def quantile_def)
qed

subsection \<open>Shifting an error table to zero mean\<close>

text \<open>
  Claim C7. Let \<open>self\<close> be an error table in the heap with the table \<open>tab\<close>, and let the
  relative errors of the assigned rows of the spectrum, as \<open>calc_error\<close> gives them, be
  the non-empty list \<open>vs\<close>. Then \<open>zeroshift\<close> returns a new object whose table has the
  masses of \<open>tab\<close> and each ppm value lowered by the mean of \<open>vs\<close>; every object that was
  in the heap before, \<open>self\<close> and its table among them, is as it was.
\<close>

theorem zeroshift_shifts_copy:
  assumes self: "self < length h" "h ! self = ErrorTable (Some tab)"
    and calc: "spec_calc_error ext (drop_unassigned spec) = Inr s"
    and vs: "vs = concat (map (\<lambda>r. case rel_error r of None \<Rightarrow> [] | Some e \<Rightarrow> [e]) (table s))"
      "vs \<noteq> []"
  shows "\<exists>h' new. zeroshift ext h self spec = Inr (h', new)
           \<and> new \<noteq> self \<and> length h \<le> new \<and> new < length h'
           \<and> h' ! new = ErrorTable (Some (map (\<lambda>(m, p). (m, p - sum_list vs / real (length vs))) tab))
           \<and> take (length h) h' = h
           \<and> h' ! self = ErrorTable (Some tab)"
proof -
  let ?mu = "sum_list vs / real (length vs)"
  let ?new = "ErrorTable (Some (map (\<lambda>(m, p). (m, p - ?mu)) tab))"
  have mean: "mean_rel_error ext spec = Inr ?mu"
    using calc vs by (simp add: mean_rel_error_def Let_def)
  have z: "zeroshift ext h self spec = Inr (h @ [?new, ?new], Suc (length h))"
    using self mean
    by (simp add: zeroshift_def alloc_def Let_def shift_ppm_def nth_append)
  show ?thesis
    using self by (simp add: z nth_append)
qed

theorem zeroshift_shifts_copy_witness:
  "(0::nat) < length [ErrorTable (Some scenario_curve)]
   \<and> spec_calc_error demo_ext (drop_unassigned ladder_spectrum) = Inr (drop_unassigned ladder_spectrum)
   \<and> (\<exists>h' new. zeroshift demo_ext [ErrorTable (Some scenario_curve)] 0 ladder_spectrum = Inr (h', new)
          \<and> h' ! new = ErrorTable (Some [(100, 3), (200, - 7)])
          \<and> h' ! 0 = ErrorTable (Some scenario_curve))"
proof -
  let ?h = "[ErrorTable (Some scenario_curve)]"
  have a: "(0::nat) < length ?h" "?h ! 0 = ErrorTable (Some scenario_curve)" by simp_all
  have c: "spec_calc_error demo_ext (drop_unassigned ladder_spectrum)
             = Inr (drop_unassigned ladder_spectrum)"
    by (simp add: demo_ext_def)
  have v: "[1, 3] = concat (map (\<lambda>r. case rel_error r of None \<Rightarrow> [] | Some e \<Rightarrow> [e])
                       (table (drop_unassigned ladder_spectrum)))" "[1, 3::real] \<noteq> []"
    by (simp_all add: drop_unassigned_def ladder_spectrum_def)
  from zeroshift_shifts_copy [OF a c v] obtain h' new where
    "zeroshift demo_ext ?h 0 ladder_spectrum = Inr (h', new)"
    "h' ! new = ErrorTable (Some (map (\<lambda>(m, p). (m, p - sum_list [1, 3] / real (length [1, 3::real])))
                  scenario_curve))"
    "h' ! 0 = ErrorTable (Some scenario_curve)"
    by blast
  then show ?thesis using a c by (auto simp: scenario_curve_def)
qed

subsection \<open>Extrapolating an error table\<close>

lemma map_insort_key: "map f (insort_key f x xs) = insort (f x) (map f xs)"
  by (induction xs) simp_all

lemma map_sort_key: "map f (sort_key f xs) = sort (map f xs)"
  by (induction xs) (simp_all add: map_insort_key)

lemma strict_sorted_keys:
  assumes "distinct (map fst tab)"
  shows "sorted_wrt (<) (map fst (sort_key fst tab))"
  using assms by (simp add: map_sort_key strict_sorted_iff)

lemma pw_linear_seg:
  assumes "j + 1 < length s"
    and "\<forall>i. 1 \<le> i \<and> i \<le> j \<longrightarrow> fst (s ! i) < x"
    and "x \<le> fst (s ! (j + 1)) \<or> j + 2 = length s"
  shows "pw_linear s x = line_through (s ! j) (s ! (j + 1)) x"
  using assms
proof (induction s x arbitrary: j rule: pw_linear.induct)
  case (1 p q r rest x)
  show ?case
  proof (cases "x \<le> fst q")
    case True
    have "j = 0"
    proof (rule ccontr)
      assume "j \<noteq> 0"
      then have "fst ((p # q # r # rest) ! 1) < x" using "1.prems"(2) by auto
      with True show False by simp
    qed
    with True show ?thesis by simp
  next
    case False
    have "j \<noteq> 0"
    proof
      assume "j = 0"
      with "1.prems"(3) False show False by simp
    qed
    then obtain j' where j: "j = Suc j'" by (cases j) auto
    have "pw_linear (q # r # rest) x = line_through ((q # r # rest) ! j') ((q # r # rest) ! (j' + 1)) x"
    proof (rule "1.IH" [OF False])
      show "j' + 1 < length (q # r # rest)" using "1.prems"(1) j by simp
      show "\<forall>i. 1 \<le> i \<and> i \<le> j' \<longrightarrow> fst ((q # r # rest) ! i) < x"
      proof (intro allI impI)
        fix i assume "1 \<le> i \<and> i \<le> j'"
        then have "fst ((p # q # r # rest) ! Suc i) < x" using "1.prems"(2) j by auto
        then show "fst ((q # r # rest) ! i) < x" by simp
      qed
      show "x \<le> fst ((q # r # rest) ! (j' + 1)) \<or> j' + 2 = length (q # r # rest)"
        using "1.prems"(3) j by simp
    qed
    with False j show ?thesis by simp
  qed
next
  case (2 p q x)
  then have "j = 0" by simp
  then show ?case by simp
next
  case (3 p x)
  then show ?case by simp
next
  case (4 x)
  then show ?case by simp
qed

lemma interp_linear_pw:
  assumes strict: "sorted_wrt (<) (map fst s)" and len: "2 \<le> length s"
  shows "interp_linear (map fst s) (map snd s) x = Some (pw_linear s x)"
proof -
  let ?xs = "map fst s"
  define r where "r = searchsorted ?xs x"
  define k where "k = min (max r 1) (length ?xs - 1)"
  have srt: "sorted ?xs" using strict by (simp add: strict_sorted_iff)
  note ss = searchsorted_sorted [OF srt, where v = x, folded r_def]
  have k1: "1 \<le> k" and kn: "k < length s" using len by (auto simp: k_def)
  have lt: "?xs ! (k - 1) < ?xs ! k"
    using sorted_wrt_nth_less [OF strict, of "k - 1" k] k1 kn by simp
  have below: "\<forall>i. 1 \<le> i \<and> i \<le> k - 1 \<longrightarrow> fst (s ! i) < x"
  proof (intro allI impI)
    fix i assume i: "1 \<le> i \<and> i \<le> k - 1"
    then have "i < r" using k1 by (auto simp: k_def)
    moreover have "i < length s" using i kn by linarith
    ultimately show "fst (s ! i) < x" using ss(2) [of i] by simp
  qed
  have kk: "k - 1 + 1 = k" using k1 by linarith
  have kk2: "k - 1 + 2 = k + 1" using k1 by linarith
  have above: "x \<le> fst (s ! k) \<or> k + 1 = length s"
  proof (cases "r = 0")
    case True
    then have k: "k = 1" using len by (simp add: k_def)
    have "x \<le> ?xs ! 0" using ss(3) [of 0] True len by (cases s) auto
    moreover have "?xs ! 0 \<le> ?xs ! 1" using srt len by (intro sorted_nth_mono) auto
    ultimately have "x \<le> ?xs ! 1" by linarith
    moreover have "?xs ! 1 = fst (s ! 1)" using len by (intro nth_map) linarith
    ultimately show ?thesis unfolding k by simp
  next
    case False
    show ?thesis
    proof (cases "r < length s")
      case True
      then have k: "k = r" using False by (auto simp: k_def)
      have "x \<le> ?xs ! r" using ss(3) [of r] True by simp
      moreover have "?xs ! r = fst (s ! r)" using True by (intro nth_map)
      ultimately show ?thesis unfolding k by simp
    next
      case False
      then have "k = length s - 1" using ss(1) len by (auto simp: k_def)
      then have "k + 1 = length s" using len by linarith
      then show ?thesis by blast
    qed
  qed
  have above': "x \<le> fst (s ! (k - 1 + 1)) \<or> k - 1 + 2 = length s"
    unfolding kk kk2 by (rule above)
  have "k - 1 + 1 < length s" unfolding kk by (rule kn)
  from pw_linear_seg [OF this below above']
  have seg: "pw_linear s x = line_through (s ! (k - 1)) (s ! k) x"
    unfolding kk .
  have il: "interp_linear ?xs (map snd s) x
          = (if ?xs ! k = ?xs ! (k - 1) then None
             else Some ((map snd s ! k - map snd s ! (k - 1)) / (?xs ! k - ?xs ! (k - 1))
                    * (x - ?xs ! (k - 1)) + map snd s ! (k - 1)))"
    unfolding interp_linear_def Let_def k_def r_def ..
  have km: "k - 1 < length s" using kn by linarith
  have nth: "?xs ! k = fst (s ! k)" "?xs ! (k - 1) = fst (s ! (k - 1))"
    "map snd s ! k = snd (s ! k)" "map snd s ! (k - 1) = snd (s ! (k - 1))"
    using kn km by (simp_all only: nth_map)
  have ne: "?xs ! k \<noteq> ?xs ! (k - 1)" using lt by simp
  show ?thesis
    unfolding il seg line_through_def using ne by (simp only: nth if_False) simp
qed

lemma those_map_Some: "those (map (\<lambda>x. Some (f x)) xs) = Some (map f xs)"
  by (induction xs) simp_all

lemma extrapolate_table_pw:
  assumes "2 \<le> length tab" "distinct (map fst tab)"
  shows "extrapolate_table tab ranges =
           Inr (map (\<lambda>x. (x, pw_linear (sort_key fst tab) x))
                  (linspace (fst (case ranges of
                       None \<Rightarrow> (Min (set (map fst tab)), Max (set (map fst tab))) | Some r \<Rightarrow> r))
                     (snd (case ranges of
                       None \<Rightarrow> (Min (set (map fst tab)), Max (set (map fst tab))) | Some r \<Rightarrow> r))
                     100))"
proof -
  let ?s = "sort_key fst tab"
  have "interp_linear (map fst ?s) (map snd ?s) = (\<lambda>x. Some (pw_linear ?s x))"
    using interp_linear_pw [OF strict_sorted_keys [OF assms(2)]] assms(1) by auto
  then show ?thesis
    using assms(1)
    by (simp add: extrapolate_table_def interp1d_def Let_def those_map_Some zip_map2
          zip_same_conv_map)
qed

lemma strict_fst_nth:
  assumes "sorted_wrt (<) (map fst s)" "i < j" "j < length s"
  shows "fst (s ! i) < fst (s ! j)"
  using sorted_wrt_nth_less [OF assms(1), of i j] assms(2,3) by simp

lemma pw_linear_left:
  assumes "sorted_wrt (<) (map fst s)" "2 \<le> length s" "x \<le> fst (s ! 0)"
  shows "pw_linear s x = line_through (s ! 0) (s ! 1) x"
proof -
  have "1 < length s" using assms(2) by linarith
  then have "fst (s ! 0) < fst (s ! 1)"
    by (intro strict_fst_nth [OF assms(1)]) simp_all
  then have "x \<le> fst (s ! (0 + 1)) \<or> 0 + 2 = length s" using assms(3) by simp
  moreover have "0 + 1 < length s" using assms(2) by linarith
  ultimately show ?thesis using pw_linear_seg [of 0 s x] by simp
qed

lemma pw_linear_right:
  assumes "sorted_wrt (<) (map fst s)" "2 \<le> length s" "fst (s ! (length s - 1)) \<le> x"
  shows "pw_linear s x = line_through (s ! (length s - 2)) (s ! (length s - 1)) x"
proof -
  let ?j = "length s - 2"
  have j1: "?j + 1 = length s - 1" and j2: "?j + 2 = length s" using assms(2) by linarith+
  have a: "?j + 1 < length s" using assms(2) by linarith
  have b: "\<forall>i. 1 \<le> i \<and> i \<le> ?j \<longrightarrow> fst (s ! i) < x"
  proof (intro allI impI)
    fix i assume i: "1 \<le> i \<and> i \<le> ?j"
    then have "i < length s - 1" "length s - 1 < length s" using assms(2) by linarith+
    from strict_fst_nth [OF assms(1) this]
    have "fst (s ! i) < fst (s ! (length s - 1))" .
    with assms(3) show "fst (s ! i) < x" by linarith
  qed
  have c: "x \<le> fst (s ! (?j + 1)) \<or> ?j + 2 = length s" using j2 by blast
  from pw_linear_seg [OF a b c] show ?thesis unfolding j1 .
qed

lemma line_through_at_left: "fst p \<noteq> fst q \<Longrightarrow> line_through p q (fst p) = snd p"
  by (simp add: line_through_def)

lemma line_through_at_right: "fst p \<noteq> fst q \<Longrightarrow> line_through p q (fst q) = snd q"
  by (simp add: line_through_def)

lemma pw_linear_between:
  assumes strict: "sorted_wrt (<) (map fst s)" and k: "k + 1 < length s"
    and x: "fst (s ! k) \<le> x" "x \<le> fst (s ! (k + 1))"
  shows "pw_linear s x = line_through (s ! k) (s ! (k + 1)) x"
proof -
  have mono: "fst (s ! i) < fst (s ! j)" if "i < j" "j < length s" for i j
    using sorted_wrt_nth_less [OF strict, of i j] that by simp
  show ?thesis
  proof (cases "k = 0 \<or> fst (s ! k) < x")
    case True
    have "\<forall>i. 1 \<le> i \<and> i \<le> k \<longrightarrow> fst (s ! i) < x"
    proof (intro allI impI)
      fix i assume i: "1 \<le> i \<and> i \<le> k"
      then have k0: "fst (s ! k) < x" using True by auto
      show "fst (s ! i) < x"
      proof (cases "i = k")
        case True then show ?thesis using k0 by simp
      next
        case False
        then have "fst (s ! i) < fst (s ! k)" using i k by (intro mono) auto
        with k0 show ?thesis by linarith
      qed
    qed
    moreover have "x \<le> fst (s ! (k + 1)) \<or> k + 2 = length s" using x(2) by blast
    ultimately show ?thesis using pw_linear_seg [OF k] by blast
  next
    case False
    then have k0: "0 < k" and xk: "x = fst (s ! k)" using x(1) by auto
    define j where "j = k - 1"
    have jk: "j + 1 = k" using k0 by (simp add: j_def)
    have a: "j + 1 < length s" using k jk by linarith
    have b: "\<forall>i. 1 \<le> i \<and> i \<le> j \<longrightarrow> fst (s ! i) < x"
    proof (intro allI impI)
      fix i assume "1 \<le> i \<and> i \<le> j"
      then have "i < k" "k < length s" using jk k by linarith+
      then show "fst (s ! i) < x" unfolding xk by (rule mono)
    qed
    have c: "x \<le> fst (s ! (j + 1)) \<or> j + 2 = length s" unfolding jk xk by simp
    have "pw_linear s x = line_through (s ! j) (s ! k) x"
      using pw_linear_seg [OF a b c] unfolding jk .
    also have "\<dots> = snd (s ! k)"
      unfolding xk using mono [of j k] jk k by (intro line_through_at_right) auto
    also have "\<dots> = line_through (s ! k) (s ! (k + 1)) x"
      unfolding xk using mono [of k "k + 1"] k by (intro line_through_at_left [symmetric]) auto
    finally show ?thesis .
  qed
qed

text \<open>
  Claim C4. Let \<open>self\<close> be an error table in the heap whose table \<open>tab\<close> has at least
  two rows with pairwise different masses, and let \<open>s\<close> be \<open>tab\<close> sorted by mass. Then
  \<open>extrapolate\<close> returns a new object and leaves every object of the heap as it was. The
  new table has 100 rows; its masses are linearly spaced over the given range, or over
  the range of the masses of \<open>tab\<close> when none is given; and each ppm value is the value,
  at that mass, of the piecewise-linear function through the points of \<open>s\<close>: the chord
  between neighbouring points, the line through the first two points to the left of the
  first one, and the line through the last two points to the right of the last one.
\<close>

theorem extrapolate_linear:
  assumes self: "self < length h" "h ! self = ErrorTable (Some tab)"
    and len: "2 \<le> length tab" and dist: "distinct (map fst tab)"
  shows "\<exists>out. extrapolate h self ranges = Inr (h @ [ErrorTable (Some out)], length h)
           \<and> length out = 100
           \<and> map fst out =
                linspace (fst (case ranges of
                       None \<Rightarrow> (Min (set (map fst tab)), Max (set (map fst tab))) | Some r \<Rightarrow> r))
                     (snd (case ranges of
                       None \<Rightarrow> (Min (set (map fst tab)), Max (set (map fst tab))) | Some r \<Rightarrow> r))
                     100
           \<and> set (sort_key fst tab) = set tab \<and> sorted (map fst (sort_key fst tab))
           \<and> (\<forall>i<100. snd (out ! i) = pw_linear (sort_key fst tab) (fst (out ! i)))
           \<and> (\<forall>i<100. fst (out ! i) \<le> fst (sort_key fst tab ! 0) \<longrightarrow>
                 snd (out ! i)
                   = line_through (sort_key fst tab ! 0) (sort_key fst tab ! 1) (fst (out ! i)))
           \<and> (\<forall>i<100. fst (sort_key fst tab ! (length tab - 1)) \<le> fst (out ! i) \<longrightarrow>
                 snd (out ! i)
                   = line_through (sort_key fst tab ! (length tab - 2))
                       (sort_key fst tab ! (length tab - 1)) (fst (out ! i)))
           \<and> (\<forall>i<100. \<forall>k. k + 1 < length tab \<and> fst (sort_key fst tab ! k) \<le> fst (out ! i)
                   \<and> fst (out ! i) \<le> fst (sort_key fst tab ! (k + 1)) \<longrightarrow>
                 snd (out ! i)
                   = line_through (sort_key fst tab ! k) (sort_key fst tab ! (k + 1))
                       (fst (out ! i)))"
proof -
  let ?s = "sort_key fst tab"
  let ?rg = "case ranges of
               None \<Rightarrow> (Min (set (map fst tab)), Max (set (map fst tab))) | Some r \<Rightarrow> r"
  let ?grid = "linspace (fst ?rg) (snd ?rg) 100"
  define out where "out = map (\<lambda>x. (x, pw_linear ?s x)) ?grid"
  have strict: "sorted_wrt (<) (map fst ?s)" by (rule strict_sorted_keys [OF dist])
  have slen: "2 \<le> length ?s" "length ?s = length tab" using len by simp_all
  have tab: "extrapolate_table tab ranges = Inr out"
    unfolding out_def by (rule extrapolate_table_pw [OF len dist])
  have ex: "extrapolate h self ranges = Inr (h @ [ErrorTable (Some out)], length h)"
    using self tab by (simp add: extrapolate_def alloc_def)
  have lo: "length out = 100" by (simp add: out_def)
  have fs: "map fst out = ?grid" by (simp add: out_def comp_def)
  have pw: "snd (out ! i) = pw_linear ?s (fst (out ! i))" if "i < 100" for i
    using that by (simp add: out_def)
  have left: "snd (out ! i) = line_through (?s ! 0) (?s ! 1) (fst (out ! i))"
    if "i < 100" "fst (out ! i) \<le> fst (?s ! 0)" for i
    using pw [OF that(1)] pw_linear_left [OF strict slen(1) that(2)] by simp
  have right: "snd (out ! i)
      = line_through (?s ! (length tab - 2)) (?s ! (length tab - 1)) (fst (out ! i))"
    if "i < 100" "fst (?s ! (length tab - 1)) \<le> fst (out ! i)" for i
    using pw [OF that(1)] pw_linear_right [OF strict slen(1), of "fst (out ! i)"] that(2)
    unfolding slen(2) by simp
  have mid: "snd (out ! i) = line_through (?s ! k) (?s ! (k + 1)) (fst (out ! i))"
    if "i < 100" "k + 1 < length tab" "fst (?s ! k) \<le> fst (out ! i)"
       "fst (out ! i) \<le> fst (?s ! (k + 1))" for i k
    using pw [OF that(1)] pw_linear_between [OF strict _ that(3,4)] that(2) slen(2) by simp
  have srt: "set ?s = set tab" "sorted (map fst ?s)" by simp_all
  show ?thesis
    using ex lo fs srt pw left right mid by blast
qed

theorem extrapolate_linear_witness:
  "(0::nat) < length [ErrorTable (Some scenario_curve)]
   \<and> [ErrorTable (Some scenario_curve)] ! 0 = ErrorTable (Some scenario_curve)
   \<and> 2 \<le> length scenario_curve \<and> distinct (map fst scenario_curve)
   \<and> (\<exists>out. extrapolate [ErrorTable (Some scenario_curve)] 0 (Some (0, 300))
               = Inr ([ErrorTable (Some scenario_curve), ErrorTable (Some out)], 1)
          \<and> length out = 100
          \<and> out ! 0 = (0, 15)
          \<and> out ! 99 = (300, - 15))"
proof -
  let ?h = "[ErrorTable (Some scenario_curve)]"
  have a: "(0::nat) < length ?h" "?h ! 0 = ErrorTable (Some scenario_curve)"
    "2 \<le> length scenario_curve" "distinct (map fst scenario_curve)"
    by (simp_all add: scenario_curve_def)
  from extrapolate_linear [OF a, of "Some (0, 300)"] obtain out where
    ex: "extrapolate ?h 0 (Some (0, 300)) = Inr (?h @ [ErrorTable (Some out)], length ?h)"
    and lo: "length out = 100"
    and fs: "map fst out = linspace 0 300 100"
    and pw: "\<forall>i<100. snd (out ! i) = pw_linear (sort_key fst scenario_curve) (fst (out ! i))"
    by auto
  have f0: "fst (out ! 0) = 0"
    using arg_cong [OF fs, of "\<lambda>l. l ! 0"] lo by (simp add: nth_linspace)
  have f99: "fst (out ! 99) = 300"
    using arg_cong [OF fs, of "\<lambda>l. l ! 99"] lo by (simp add: nth_linspace)
  have s0: "snd (out ! 0) = 15"
    using pw f0 by (simp add: scenario_curve_def line_through_def)
  have s99: "snd (out ! 99) = - 15"
    using pw f99 by (simp add: scenario_curve_def line_through_def)
  have "out ! 0 = (0, 15)" "out ! 99 = (300, - 15)"
    using f0 s0 f99 s99 by (simp_all add: prod_eq_iff)
  then show ?thesis using a ex lo by auto
qed

subsection \<open>The ridge curve of fit_kernel\<close>

lemma length_ridge_column [simp]: "length (ridge_column f) = 100"
  by (simp add: ridge_column_def)

lemma nan_minus_None [simp]: "nan_minus a None = None"
  by (simp add: nan_minus_def split: option.splits)

lemma nan_minus_self: "nan_minus a a = (case a of None \<Rightarrow> None | Some v \<Rightarrow> Some 0)"
  by (simp add: nan_minus_def split: option.splits)

lemma fit_kernel_Inr:
  assumes "fit_kernel ext f ms err_ppm show_map = Inr curve"
  shows "length (savgol_filter ext (ridge_column f)) = 100
       \<and> curve = zip (linspace (Min (set ms)) (Max (set ms)) 100)
                    (map (\<lambda>p. nan_minus p (savgol_filter ext (ridge_column f) ! 0))
                       (savgol_filter ext (ridge_column f)))"
  using assms
  by (auto simp: fit_kernel_def Let_def split: if_splits)

lemma those_Some_iff:
  "(\<exists>ys. those xs = Some ys) \<longleftrightarrow> None \<notin> set xs"
  by (induction xs) (auto split: option.splits)


lemma fit_kernel_total:
  assumes "length f = 100" "\<forall>row\<in>set f. length row = 100" "ms \<noteq> []"
    and "length (savgol_filter ext (ridge_column f)) = 100"
  shows "fit_kernel ext f ms err_ppm show_map
           = Inr (zip (linspace (Min (set ms)) (Max (set ms)) 100)
                    (map (\<lambda>p. nan_minus p (savgol_filter ext (ridge_column f) ! 0))
                       (savgol_filter ext (ridge_column f))))"
  using assms by (simp add: fit_kernel_def Let_def)

lemma fit_kernel_rows:
  assumes "fit_kernel ext f ms err_ppm show_map = Inr curve"
  shows "length curve = 100"
    and "map fst curve = linspace (Min (set ms)) (Max (set ms)) 100"
    and "map snd curve = map (\<lambda>p. nan_minus p (savgol_filter ext (ridge_column f) ! 0))
                           (savgol_filter ext (ridge_column f))"
    and "savgol_filter ext (ridge_column f) ! 0 \<noteq> None \<Longrightarrow> snd (curve ! 0) = Some 0"
    and "savgol_filter ext (ridge_column f) ! 0 = None \<Longrightarrow> i < 100 \<Longrightarrow> snd (curve ! i) = None"
proof -
  let ?sm = "savgol_filter ext (ridge_column f)"
  from fit_kernel_Inr [OF assms] have sm: "length ?sm = 100"
    and c: "curve = zip (linspace (Min (set ms)) (Max (set ms)) 100)
                      (map (\<lambda>p. nan_minus p (?sm ! 0)) ?sm)"
    by blast+
  show "length curve = 100" by (simp add: c sm)
  show "map fst curve = linspace (Min (set ms)) (Max (set ms)) 100" by (simp add: c sm)
  show "map snd curve = map (\<lambda>p. nan_minus p (?sm ! 0)) ?sm" by (simp add: c sm)
  show "?sm ! 0 \<noteq> None \<Longrightarrow> snd (curve ! 0) = Some 0"
    by (auto simp: c sm nan_minus_self)
  show "?sm ! 0 = None \<Longrightarrow> i < 100 \<Longrightarrow> snd (curve ! i) = None"
    by (simp add: c sm)
qed

text \<open>
  Claim C6 at a density map with a NaN at the start of the smoothed ridge. Let the map
  have 100 rows and 100 columns and a mass be given, and let the smoothed ridge column
  have 100 values of which the first is NaN, as it is when the columns have no value
  above their 0.95 quantile, so that \<^verbatim>\<open>np.mean\<close> takes the mean of nothing. Then
  \<open>fit_kernel\<close> raises nothing and returns a curve of 100 rows with the linearly spaced
  masses, but the subtraction of the first value leaves NaN in every row: the first ppm
  value is NaN, not 0.
\<close>

theorem fit_kernel_nan_start:
  assumes "length f = 100" "\<forall>row\<in>set f. length row = 100" "ms \<noteq> []"
    and "length (savgol_filter ext (ridge_column f)) = 100"
    and "savgol_filter ext (ridge_column f) ! 0 = None"
  shows "\<exists>curve. fit_kernel ext f ms err_ppm show_map = Inr curve
           \<and> length curve = 100
           \<and> map fst curve = linspace (Min (set ms)) (Max (set ms)) 100
           \<and> (\<forall>i<100. snd (curve ! i) = None)
           \<and> snd (curve ! 0) \<noteq> Some 0"
proof -
  from fit_kernel_total [OF assms(1-4), of err_ppm show_map] obtain curve where
    r: "fit_kernel ext f ms err_ppm show_map = Inr curve" by blast
  note rows = fit_kernel_rows [OF r]
  have nan: "\<forall>i<100. snd (curve ! i) = None" using rows(5) [OF assms(5)] by blast
  then have "snd (curve ! 0) \<noteq> Some 0" by simp
  with r rows(1,2) nan show ?thesis by blast
qed

lemma column_flat_map: "i < 100 \<Longrightarrow> column flat_map i = replicate 100 0"
  by (simp add: column_def flat_map_def)

lemma ridge_ppm_flat: "ridge_ppm (replicate 100 0) = None"
proof -
  have s: "sort (replicate 100 (0::real)) = replicate 100 0"
    by (simp add: sorted_sort_id)
  have q: "quantile (replicate 100 0) (95 / 100) = Some 0"
    by (simp add: quantile_def s Let_def)
  have e: "filter (\<lambda>(y, v). 0 < v) (zip (linspace 3 (- 3) 100) (replicate 100 (0::real))) = []"
    by (auto simp: filter_empty_conv dest: set_zip_rightD)
  show ?thesis unfolding ridge_ppm_def q option.case Let_def e by simp
qed

lemma ridge_column_flat: "ridge_column flat_map = replicate 100 None"
proof -
  have "map (\<lambda>i. ridge_ppm (column flat_map i)) [0..<100] = map (\<lambda>i. None) [0..<100]"
    by (intro map_cong refl) (simp add: column_flat_map ridge_ppm_flat)
  then show ?thesis by (simp add: ridge_column_def map_replicate_const)
qed

theorem fit_kernel_nan_start_witness:
  "length flat_map = 100 \<and> list_all (\<lambda>row. length row = 100) flat_map
   \<and> ridge_column flat_map = replicate 100 None
   \<and> length (savgol_filter demo_ext (ridge_column flat_map)) = 100
   \<and> savgol_filter demo_ext (ridge_column flat_map) ! 0 = None
   \<and> (\<exists>curve. fit_kernel demo_ext flat_map [100, 200] 3 False = Inr curve
         \<and> length curve = 100 \<and> fst (curve ! 0) = 100 \<and> fst (curve ! 99) = 200
         \<and> snd (curve ! 0) = None \<and> snd (curve ! 99) = None)"
proof -
  have a: "length flat_map = 100" "\<forall>row\<in>set flat_map. length row = 100"
    by (simp_all add: flat_map_def)
  have m: "[100, 200::real] \<noteq> []" by simp
  have l: "length (savgol_filter demo_ext (ridge_column flat_map)) = 100"
    by (simp add: demo_ext_def)
  have n: "savgol_filter demo_ext (ridge_column flat_map) ! 0 = None"
    by (simp add: demo_ext_def ridge_column_flat)
  from fit_kernel_nan_start [OF a m l n, of 3 False] obtain curve where
    r: "fit_kernel demo_ext flat_map [100, 200] 3 False = Inr curve"
    and c: "length curve = 100"
    and f: "map fst curve = linspace (Min (set [100, 200])) (Max (set [100, 200])) 100"
    and p: "\<forall>i<100. snd (curve ! i) = None"
    by blast
  have f0: "fst (curve ! 0) = 100"
    using arg_cong [OF f, of "\<lambda>l. l ! 0"] c by (simp add: nth_linspace)
  have f99: "fst (curve ! 99) = 200"
    using arg_cong [OF f, of "\<lambda>l. l ! 99"] c by (simp add: nth_linspace)
  have p0: "snd (curve ! 0) = None" "snd (curve ! 99) = None" using p by simp_all
  show ?thesis
    using a ridge_column_flat l n r c f0 f99 p0 by (auto simp: list_all_iff)
qed








subsection \<open>What the strategies apply to the ridge curve\<close>


lemma map_fst_shift_ppm [simp]: "map fst (shift_ppm mu tab) = map fst tab"
  by (simp add: shift_ppm_def case_prod_beta comp_def)














subsection \<open>Failures of the density map reach the caller\<close>








subsection \<open>Peaks outside the range of the curve, and peaks that stay in their bin\<close>

lemma fold_correct_bin_rowwise:
  "fold (\<lambda>i t. correct_bin (lo i) (hi i) (p i) t) js tab
     = map (\<lambda>r. fold (\<lambda>i r. if lo i < mass r \<and> mass r \<le> hi i
                              then r\<lparr>mass := mass r + mass r * p i / 1000000\<rparr> else r) js r) tab"
  by (induction js arbitrary: tab) (simp_all add: correct_bin_def comp_def)

lemma fold_row_outside:
  assumes "\<forall>i\<in>set js. \<not> (lo i < mass r \<and> mass r \<le> hi i)"
  shows "fold (\<lambda>i r. if lo i < mass r \<and> mass r \<le> hi i
                     then r\<lparr>mass := mass r + mass r * p i / 1000000\<rparr> else r) js r = r"
  using assms by (induction js) auto

lemma linspace_between:
  assumes "a \<le> b" "i < n"
  shows "a \<le> linspace a b n ! i" "linspace a b n ! i \<le> b"
proof -
  define X where "X = real i * ((b - a) / real (n - 1))"
  have nth: "linspace a b n ! i = a + X"
    unfolding X_def by (rule nth_linspace [OF assms(2)])
  have c: "0 \<le> (b - a) / real (n - 1)" using assms(1) by simp
  have X0: "0 \<le> X" unfolding X_def using c by (intro mult_nonneg_nonneg) simp_all
  have X1: "X \<le> b - a"
  proof (cases "n = 1")
    case True
    then have "i = 0" using assms(2) by simp
    then show ?thesis using assms(1) by (simp add: X_def)
  next
    case False
    then have n1: "0 < real (n - 1)" using assms(2) by simp
    have "real i \<le> real (n - 1)" using assms(2) by simp
    then have "X \<le> real (n - 1) * ((b - a) / real (n - 1))"
      unfolding X_def using c by (intro mult_right_mono) simp_all
    also have "\<dots> = b - a" using n1 by simp
    finally show ?thesis .
  qed
  show "a \<le> linspace a b n ! i" unfolding nth using X0 by linarith
  show "linspace a b n ! i \<le> b" unfolding nth using X1 by linarith
qed

lemma apply_curve_outside:
  assumes "err \<noteq> []" and "i < length tab"
    and "mass (tab ! i) \<le> Min (set (map fst err)) \<or> Max (set (map fst err)) < mass (tab ! i)"
  shows "apply_curve err tab ! i = tab ! i"
proof -
  let ?lo = "Min (set (map fst err))" and ?hi = "Max (set (map fst err))"
  let ?a = "linspace ?lo ?hi (length err + 1)"
  have le: "?lo \<le> ?hi" using assms(1) by (intro Min_le_iff [THEN iffD2]) auto
  have out: "\<forall>j\<in>set [0..<length err].
      \<not> (?a ! j < mass (tab ! i) \<and> mass (tab ! i) \<le> ?a ! (j + 1))"
  proof
    fix j assume "j \<in> set [0..<length err]"
    then have j: "j < length err + 1" "j + 1 < length err + 1" by simp_all
    from linspace_between [OF le j(1)] linspace_between [OF le j(2)] assms(3)
    show "\<not> (?a ! j < mass (tab ! i) \<and> mass (tab ! i) \<le> ?a ! (j + 1))" by linarith
  qed
  show ?thesis
    unfolding apply_curve_def Let_def fold_correct_bin_rowwise
    using assms(2) fold_row_outside [OF out] by simp
qed

lemma linspace_mono:
  assumes "a \<le> b" "j \<le> k" "k < n"
  shows "linspace a b n ! j \<le> linspace a b n ! k"
proof -
  have c: "0 \<le> (b - a) / real (n - 1)" using assms(1) by simp
  have "real j * ((b - a) / real (n - 1)) \<le> real k * ((b - a) / real (n - 1))"
    using assms(2) c by (intro mult_right_mono) simp_all
  moreover have "j < n" using assms(2,3) by linarith
  ultimately show ?thesis using assms(3) by (simp only: nth_linspace add_le_cancel_left)
qed

lemma fold_row_once:
  assumes i: "i < n"
    and inbin: "lo i < mass r" "mass r \<le> hi i"
    and before: "\<forall>j<i. hi j \<le> lo i"
    and after: "\<forall>j. i < j \<and> j < n \<longrightarrow> hi i \<le> lo j"
    and stay: "mass r + mass r * p i / 1000000 \<le> hi i"
  shows "fold (\<lambda>i r. if lo i < mass r \<and> mass r \<le> hi i
                     then r\<lparr>mass := mass r + mass r * p i / 1000000\<rparr> else r) [0..<n] r
           = r\<lparr>mass := mass r + mass r * p i / 1000000\<rparr>"
proof -
  let ?step = "\<lambda>i r. if lo i < mass r \<and> mass r \<le> hi i
                     then r\<lparr>mass := mass r + mass r * p i / 1000000\<rparr> else r"
  let ?r' = "r\<lparr>mass := mass r + mass r * p i / 1000000\<rparr>"
  have split: "[0..<n] = [0..<i] @ i # [Suc i..<n]"
    using i upt_add_eq_append [of 0 i "n - i"] by (simp add: upt_conv_Cons)
  have b: "fold ?step [0..<i] r = r"
  proof (rule fold_row_outside)
    show "\<forall>j\<in>set [0..<i]. \<not> (lo j < mass r \<and> mass r \<le> hi j)"
    proof
      fix j assume "j \<in> set [0..<i]"
      then have "hi j \<le> lo i" using before by simp
      with inbin(1) show "\<not> (lo j < mass r \<and> mass r \<le> hi j)" by linarith
    qed
  qed
  have m: "?step i r = ?r'" using inbin by simp
  have a: "fold ?step [Suc i..<n] ?r' = ?r'"
  proof (rule fold_row_outside)
    show "\<forall>j\<in>set [Suc i..<n]. \<not> (lo j < mass ?r' \<and> mass ?r' \<le> hi j)"
    proof
      fix j assume "j \<in> set [Suc i..<n]"
      then have "hi i \<le> lo j" using after by simp
      with stay show "\<not> (lo j < mass ?r' \<and> mass ?r' \<le> hi j)" by simp
    qed
  qed
  show ?thesis unfolding split fold_append fold_Cons comp_def b m a ..
qed

lemma apply_curve_once:
  assumes i: "i < length err" and k: "k < length tab"
    and inbin:
      "linspace (Min (set (map fst err))) (Max (set (map fst err))) (length err + 1) ! i
         < mass (tab ! k)"
      "mass (tab ! k)
         \<le> linspace (Min (set (map fst err))) (Max (set (map fst err))) (length err + 1) ! (i + 1)"
    and stay: "mass (tab ! k) + mass (tab ! k) * snd (err ! i) / 1000000
         \<le> linspace (Min (set (map fst err))) (Max (set (map fst err))) (length err + 1) ! (i + 1)"
  shows "apply_curve err tab ! k
           = (tab ! k)\<lparr>mass := mass (tab ! k) + mass (tab ! k) * snd (err ! i) / 1000000\<rparr>"
proof -
  let ?lo = "Min (set (map fst err))" and ?hi = "Max (set (map fst err))"
  let ?a = "linspace ?lo ?hi (length err + 1)"
  have ne: "err \<noteq> []" using i by auto
  have le: "?lo \<le> ?hi" using ne by (intro Min_le_iff [THEN iffD2]) auto
  have before: "\<forall>j<i. ?a ! (j + 1) \<le> ?a ! i"
  proof (intro allI impI)
    fix j assume "j < i"
    then have "j + 1 \<le> i" "i < length err + 1" using i by linarith+
    then show "?a ! (j + 1) \<le> ?a ! i" by (rule linspace_mono [OF le])
  qed
  have after: "\<forall>j. i < j \<and> j < length err \<longrightarrow> ?a ! (i + 1) \<le> ?a ! j"
  proof (intro allI impI)
    fix j assume "i < j \<and> j < length err"
    then have "i + 1 \<le> j" "j < length err + 1" by linarith+
    then show "?a ! (i + 1) \<le> ?a ! j" by (rule linspace_mono [OF le])
  qed
  have "fold (\<lambda>i r. if ?a ! i < mass r \<and> mass r \<le> ?a ! (i + 1)
                     then r\<lparr>mass := mass r + mass r * snd (err ! i) / 1000000\<rparr> else r)
          [0..<length err] (tab ! k)
        = (tab ! k)\<lparr>mass := mass (tab ! k) + mass (tab ! k) * snd (err ! i) / 1000000\<rparr>"
    by (rule fold_row_once [where lo = "\<lambda>i. ?a ! i" and hi = "\<lambda>i. ?a ! (i + 1)"
          and p = "\<lambda>i. snd (err ! i)", OF i inbin before after stay])
  then show ?thesis
    unfolding apply_curve_def Let_def fold_correct_bin_rowwise using k by simp
qed

end
